theory Spec2Isabelle
  imports Main
begin

section \<open>Data model (notte/browser/dom_tree.py)\<close>

text \<open>
  \<^verbatim>\<open>NodeType\<close> is the kind of a node. \<^verbatim>\<open>DomNode.role\<close> has the Python type
  \<^verbatim>\<open>NodeRole | str\<close>: an enum member, or the raw string when the string names no member.
  A member is represented by its \<^verbatim>\<open>.value\<close>.
\<close>

datatype node_type = TEXT | INTERACTION | OTHER

datatype node_category = CAT_TEXT | CAT_INTERACTION | CAT_IMAGE | CAT_OTHER

datatype node_role_or_str = NodeRole string | Str string

text \<open>
  Modelled from the spec: the enum \<^verbatim>\<open>NodeRole\<close> (module notte.browser.node_type) is not part
  of the sources at hand. Its two operations used by the tree are parameters:
  \<^verbatim>\<open>NodeRole.from_value\<close> gives the value of the member that a raw role string names, or
  nothing when the string stays a plain \<^verbatim>\<open>str\<close> (the spec's \<open>Known(enum) | Unknown(string)\<close>),
  and \<^verbatim>\<open>role.category()\<close> gives the category of a member.
\<close>

record node_role_enum =
  from_value :: "string \<Rightarrow> string option"
  category :: "string \<Rightarrow> node_category"

text \<open>\<^verbatim>\<open>NodeSelectors\<close> (frozen dataclass).\<close>

record node_selectors =
  css_selector :: string
  xpath_selector :: string
  notte_selector :: string
  in_iframe :: bool
  in_shadow_root :: bool
  iframe_parent_css_selectors :: "string list"
  playwright_selector :: "string option"

text \<open>
  \<^verbatim>\<open>DomAttributes\<close>: of its optional fields only the three that the functions below read
  are kept; unset is \<open>None\<close>, never a default.
\<close>

record dom_attributes =
  visible :: "bool option"
  enabled :: "bool option"
  hidden :: "bool option"

text \<open>\<^verbatim>\<open>ComputedDomAttributes\<close>; \<open>cda_selectors\<close> is its field \<^verbatim>\<open>selectors\<close>.\<close>

record computed_dom_attributes =
  in_viewport :: bool
  is_interactive :: bool
  is_top_element :: bool
  cda_is_editable :: bool
  shadow_root :: bool
  highlight_index :: "int option"
  cda_selectors :: "node_selectors option"

text \<open>
  \<^verbatim>\<open>DomNode\<close> as the object stored after construction. The back-reference \<^verbatim>\<open>parent\<close> is left
  out: no function below reads it, and every reconstruction copies it unchanged. The Python
  class of the object (\<^verbatim>\<open>DomNode\<close> or its subclass \<^verbatim>\<open>InteractionDomNode\<close>) is not recorded
  either: a node here is the value of its fields.
\<close>

datatype dom_node = DomNodeObj
  (node_id: "string option")
  (node_type: node_type)
  (node_role: node_role_or_str)
  (node_text: string)
  (children: "dom_node list")
  (attributes: "dom_attributes option")
  (computed_attributes: computed_dom_attributes)
  (subtree_ids: "string list")

text \<open>
  Failures. \<^verbatim>\<open>InvalidInternalCheckError\<close> carries its \<^verbatim>\<open>check\<close> (one constructor per message
  of the sources) and its \<^verbatim>\<open>url\<close>; the fixed \<^verbatim>\<open>dev_advice\<close> text is omitted.
\<close>

datatype internal_check =
    NodeNotFoundInGraph string
      \<comment> \<open>"Node with id {action.id} not found in graph"\<close>
  | ResolvedIdMismatch "string option" string
      \<comment> \<open>"Resolved node id {node.id} does not match action id {action.id}"\<close>
  | NoSelectorsFound
      \<comment> \<open>"No selectors found"\<close>
  | NodeIdCannotBeNone
      \<comment> \<open>"node.id cannot be None"\<close>
  | MustBeInteractionNode node_type "string option"
      \<comment> \<open>"DomNode must be an interaction node to be converted ... But is: {type} with id: {id} ..."\<close>
  | InteractionNodeNeedsId
      \<comment> \<open>"InteractionNode must have a valid non-None id"\<close>
  | InteractionNodeNoChildren
      \<comment> \<open>"InteractionNode must have no children"\<close>

datatype error =
    InvalidInternalCheckError internal_check "string option"
  | NodeFilteringResultsInEmptyGraph "string option" "string set"
      \<comment> \<open>url, and the roles of the operation text "subtree_without(roles={roles})"\<close>
  | FailedNodeResolutionError dom_node
  | FailedUniqueLocatorResolutionError node_selectors
  | AssertionError
      \<comment> \<open>a failed \<^verbatim>\<open>assert\<close>\<close>
  | DriverError
      \<comment> \<open>an exception of the browser driver that no \<^verbatim>\<open>except\<close> clause catches\<close>

section \<open>NodeSelectors.selectors\<close>

definition selectors :: "node_selectors \<Rightarrow> string list" where
  "selectors s =
     (case playwright_selector s of None \<Rightarrow> [] | Some p \<Rightarrow> [p]) @ [css_selector s] @ [xpath_selector s]"

section \<open>Construction\<close>

text \<open>
  \<^verbatim>\<open>DomNode.__post_init__\<close>: the own id, if any, followed by the children's
  \<^verbatim>\<open>subtree_ids\<close> in order; a role that is still a string is classified.
\<close>

definition classify_role :: "node_role_enum \<Rightarrow> node_role_or_str \<Rightarrow> node_role_or_str" where
  "classify_role E r =
     (case r of
        NodeRole v \<Rightarrow> NodeRole v
      | Str s \<Rightarrow> (case from_value E s of Some v \<Rightarrow> NodeRole v | None \<Rightarrow> Str s))"

definition new_DomNode ::
  "node_role_enum \<Rightarrow> string option \<Rightarrow> node_type \<Rightarrow> node_role_or_str \<Rightarrow> string \<Rightarrow> dom_node list \<Rightarrow>
   dom_attributes option \<Rightarrow> computed_dom_attributes \<Rightarrow> dom_node" where
  "new_DomNode E i t r tx cs a ca =
     DomNodeObj i t (classify_role E r) tx cs a ca
       ((case i of None \<Rightarrow> [] | Some x \<Rightarrow> [x]) @ concat (map subtree_ids cs))"

section \<open>DomNode.inner\_text\<close>

definition join :: "string \<Rightarrow> string list \<Rightarrow> string" where
  "join sep xs = (case xs of [] \<Rightarrow> [] | y # ys \<Rightarrow> y @ concat (map (\<lambda>z. sep @ z) ys))"

text \<open>
  The test \<^verbatim>\<open>x is not None and not x\<close> on an optional boolean holds exactly for an
  explicit \<^verbatim>\<open>False\<close>.
\<close>

definition is_not_None_and_not :: "bool option \<Rightarrow> bool" where
  "is_not_None_and_not x = (case x of None \<Rightarrow> False | Some b \<Rightarrow> \<not> b)"

fun inner_text :: "dom_node \<Rightarrow> string"
  and inner_texts :: "dom_node list \<Rightarrow> string list" where
  "inner_text (DomNodeObj i t r tx cs a ca sids) =
     (if t = TEXT then tx else join '' '' (inner_texts cs))"
| "inner_texts [] = []"
| "inner_texts (child # rest) =
     (let child_text = inner_text child in
      if length child_text = 0 then inner_texts rest
      else case attributes child of
        None \<Rightarrow> child_text # inner_texts rest
      | Some at \<Rightarrow>
          if is_not_None_and_not (hidden at) then inner_texts rest
          else if is_not_None_and_not (visible at) then inner_texts rest
          else if is_not_None_and_not (enabled at) then inner_texts rest
          else child_text # inner_texts rest)"

text \<open>
  \<^verbatim>\<open>InteractionDomNode(...)\<close>: the subclass checks the id and the children before running the
  base \<^verbatim>\<open>__post_init__\<close>. \<^verbatim>\<open>get_url\<close> is the part of \<^verbatim>\<open>notte_selector\<close> before the first colon.
\<close>

definition get_url_of :: "computed_dom_attributes \<Rightarrow> string option" where
  "get_url_of ca =
     (case cda_selectors ca of
        None \<Rightarrow> None
      | Some attr \<Rightarrow>
          if length (notte_selector attr) = 0 then None
          else Some (takeWhile (\<lambda>c. c \<noteq> CHR '':'') (notte_selector attr)))"

definition get_url :: "dom_node \<Rightarrow> string option" where
  "get_url n = get_url_of (computed_attributes n)"

definition new_InteractionDomNode ::
  "node_role_enum \<Rightarrow> string option \<Rightarrow> node_type \<Rightarrow> node_role_or_str \<Rightarrow> string \<Rightarrow> dom_node list \<Rightarrow>
   dom_attributes option \<Rightarrow> computed_dom_attributes \<Rightarrow> error + dom_node" where
  "new_InteractionDomNode E i t r tx cs a ca =
     (if i = None then Inl (InvalidInternalCheckError InteractionNodeNeedsId (get_url_of ca))
      else if length cs > 0 then Inl (InvalidInternalCheckError InteractionNodeNoChildren (get_url_of ca))
      else Inr (new_DomNode E i t r tx cs a ca))"

section \<open>Tree algorithms\<close>

definition to_interaction_node :: "node_role_enum \<Rightarrow> dom_node \<Rightarrow> error + dom_node" where
  "to_interaction_node E n =
     (if node_type n \<noteq> INTERACTION
      then Inl (InvalidInternalCheckError (MustBeInteractionNode (node_type n) (node_id n)) (get_url n))
      else new_InteractionDomNode E (node_id n) INTERACTION (node_role n) (node_text n) []
             (attributes n) (computed_attributes n))"

text \<open>
  \<^verbatim>\<open>DomNode.find\<close>: the node itself, else the first child subtree that holds the id; a
  failed coercion of the match propagates.
\<close>

fun find_node :: "node_role_enum \<Rightarrow> dom_node \<Rightarrow> string \<Rightarrow> error + dom_node option"
  and find_children :: "node_role_enum \<Rightarrow> dom_node list \<Rightarrow> string \<Rightarrow> error + dom_node option" where
  "find_node E (DomNodeObj i t r tx cs a ca sids) ident =
     (if i = Some ident
      then (case to_interaction_node E (DomNodeObj i t r tx cs a ca sids) of
              Inl e \<Rightarrow> Inl e
            | Inr n \<Rightarrow> Inr (Some n))
      else find_children E cs ident)"
| "find_children E [] ident = Inr None"
| "find_children E (child # rest) ident =
     (case find_node E child ident of
        Inl e \<Rightarrow> Inl e
      | Inr (Some found) \<Rightarrow> Inr (Some found)
      | Inr None \<Rightarrow> find_children E rest ident)"

definition is_interaction :: "node_role_enum \<Rightarrow> dom_node \<Rightarrow> bool" where
  "is_interaction E n =
     (case node_role n of
        Str s \<Rightarrow> False
      | NodeRole v \<Rightarrow>
          if node_id n = None then False
          else if node_type n = INTERACTION then True
          else category E v = CAT_INTERACTION)"

text \<open>\<^verbatim>\<open>DomNode.flatten\<close>: pre-order, appending to the accumulator.\<close>

fun flatten_inner :: "node_role_enum \<Rightarrow> bool \<Rightarrow> dom_node \<Rightarrow> dom_node list \<Rightarrow> dom_node list"
  and flatten_children :: "node_role_enum \<Rightarrow> bool \<Rightarrow> dom_node list \<Rightarrow> dom_node list \<Rightarrow> dom_node list" where
  "flatten_inner E only_interaction (DomNodeObj i t r tx cs a ca sids) acc =
     flatten_children E only_interaction cs
       (if \<not> only_interaction \<or> is_interaction E (DomNodeObj i t r tx cs a ca sids)
        then acc @ [DomNodeObj i t r tx cs a ca sids] else acc)"
| "flatten_children E only_interaction [] acc = acc"
| "flatten_children E only_interaction (child # rest) acc =
     flatten_children E only_interaction rest (flatten_inner E only_interaction child acc)"

definition flatten :: "node_role_enum \<Rightarrow> dom_node \<Rightarrow> bool \<Rightarrow> dom_node list" where
  "flatten E n only_interaction = flatten_inner E only_interaction n []"

text \<open>
  \<^verbatim>\<open>str.strip()\<close> removes leading and trailing whitespace. A character stands for a
  code point below 256; of these Python's \<^verbatim>\<open>str.isspace\<close> holds for 0x09-0x0D, 0x1C-0x1F, the
  blank 0x20, the next-line control 0x85 and the no-break space 0xA0.
\<close>

definition is_space :: "char \<Rightarrow> bool" where
  "is_space c =
     (let n = (of_char c :: nat)
      in (9 \<le> n \<and> n \<le> 13) \<or> (28 \<le> n \<and> n \<le> 32) \<or> n = 133 \<or> n = 160)"

definition strip :: "string \<Rightarrow> string" where
  "strip s = rev (dropWhile is_space (rev (dropWhile is_space s)))"

text \<open>\<^verbatim>\<open>DomNode.subtree_filter\<close> (its local function \<^verbatim>\<open>inner\<close>) and \<^verbatim>\<open>subtree_without\<close>.\<close>

fun subtree_filter_inner :: "node_role_enum \<Rightarrow> (dom_node \<Rightarrow> bool) \<Rightarrow> dom_node \<Rightarrow> dom_node option"
  and filtered_children :: "node_role_enum \<Rightarrow> (dom_node \<Rightarrow> bool) \<Rightarrow> dom_node list \<Rightarrow> dom_node list" where
  "subtree_filter_inner E ft (DomNodeObj i t r tx cs a ca sids) =
     (if \<not> ft (DomNodeObj i t r tx cs a ca sids) then None
      else let fc = filtered_children E ft cs in
        if i = None \<and> length fc = 0 \<and> strip tx = [] then None
        else Some (new_DomNode E i t r tx fc a ca))"
| "filtered_children E ft [] = []"
| "filtered_children E ft (child # rest) =
     (case subtree_filter_inner E ft child of
        None \<Rightarrow> filtered_children E ft rest
      | Some filtered_child \<Rightarrow> filtered_child # filtered_children E ft rest)"

definition subtree_filter :: "node_role_enum \<Rightarrow> dom_node \<Rightarrow> (dom_node \<Rightarrow> bool) \<Rightarrow> dom_node option" where
  "subtree_filter E n ft = subtree_filter_inner E ft n"

definition only_roles :: "string set \<Rightarrow> dom_node \<Rightarrow> bool" where
  "only_roles roles n = (case node_role n of Str s \<Rightarrow> True | NodeRole v \<Rightarrow> v \<notin> roles)"

definition subtree_without :: "node_role_enum \<Rightarrow> dom_node \<Rightarrow> string set \<Rightarrow> error + dom_node" where
  "subtree_without E n roles =
     (case subtree_filter E n (only_roles roles) of
        None \<Rightarrow> Inl (NodeFilteringResultsInEmptyGraph (get_url n) roles)
      | Some filtered \<Rightarrow> Inr filtered)"

definition get_role_str :: "dom_node \<Rightarrow> string" where
  "get_role_str n = (case node_role n of Str s \<Rightarrow> s | NodeRole v \<Rightarrow> v)"

section \<open>Ingest of the accessibility payload\<close>

text \<open>
  \<^verbatim>\<open>A11yNode\<close> is a dictionary; the keys that \<^verbatim>\<open>DomNode.from_a11y_node\<close> reads are fields here,
  an absent key is \<open>None\<close> (an absent \<^verbatim>\<open>children\<close> is the empty list, as
  \<^verbatim>\<open>node.get("children", [])\<close> reads it).
\<close>

datatype a11y_node = A11yNode
  (a11y_role: string)
  (a11y_name: string)
  (a11y_children: "a11y_node list")
  (a11y_id: "string option")
  (a11y_highlight_index: "int option")
  (a11y_in_viewport: "bool option")
  (a11y_is_interactive: "bool option")
  (a11y_is_top_element: "bool option")
  (a11y_shadow_root: "bool option")
  (a11y_visible: "bool option")
  (a11y_enabled: "bool option")
  (a11y_hidden: "bool option")

definition get_bool :: "bool option \<Rightarrow> bool" where
  "get_bool v = (case v of None \<Rightarrow> False | Some b \<Rightarrow> b)"

definition attributes_from_a11y_node :: "a11y_node \<Rightarrow> dom_attributes" where
  "attributes_from_a11y_node node =
     \<lparr>visible = a11y_visible node, enabled = a11y_enabled node, hidden = a11y_hidden node\<rparr>"

fun from_a11y_node :: "node_role_enum \<Rightarrow> a11y_node \<Rightarrow> string \<Rightarrow> dom_node" where
  "from_a11y_node E (A11yNode rl nm chs ident hi iv ii ite sr vis en hid) notte_sel =
     (let built_children = map (\<lambda>child. from_a11y_node E child notte_sel) chs;
          role0 = classify_role E (Str rl);
          type0 = (if ident \<noteq> None then INTERACTION else OTHER);
          type1 = (case role0 of
                     NodeRole v \<Rightarrow> if category E v = CAT_TEXT then TEXT else type0
                   | Str s \<Rightarrow> type0)
      in new_DomNode E ident type1 role0 nm built_children
           (Some (attributes_from_a11y_node (A11yNode rl nm chs ident hi iv ii ite sr vis en hid)))
           \<lparr>in_viewport = get_bool iv, is_interactive = get_bool ii, is_top_element = get_bool ite,
            cda_is_editable = False, shadow_root = get_bool sr, highlight_index = hi,
            cda_selectors = None\<rparr>)"

section \<open>The live page (notte/pipe/resolution.py)\<close>

text \<open>
  The browser driver is an external collaborator. A frame is named by a string, and
  \<^verbatim>\<open>frame.locator(selector)\<close> is the pair of the two. What the page answers is a record
  of functions; a driver call either returns or raises. The calls made are recorded in
  order, so that what has been probed is part of the result.
\<close>

type_synonym frame = string

datatype locator = Locator frame string

datatype 'a driver_result = Returns 'a | Raises

datatype driver_call =
    Count frame string
  | IsEditable locator
  | GetAttributeType locator
  | IsVisible locator
  | IsEnabled locator
  | GetLocatorForNodeId string
  | GetHtmlSelector locator

record html_selectors =
  hs_playwright_selector :: "string option"
  hs_css_selector :: string
  hs_xpath_selector :: string

text \<open>
  Modelled from the spec: \<^verbatim>\<open>get_locator_for_node_id\<close> and \<^verbatim>\<open>get_html_selector\<close> (module
  notte.pipe.preprocessing.a11y.conflict_resolution) are not part of the sources at hand;
  they are the spec's "locator for accessibility id" lookup and "derive selector strings
  from a locator" operation, each of which may come back empty.
\<close>

record browser_driver =
  frames :: "frame list"
  locator_count :: "frame \<Rightarrow> string \<Rightarrow> nat driver_result"
  is_editable :: "locator \<Rightarrow> bool driver_result"
  get_attribute_type :: "locator \<Rightarrow> string option driver_result"
  is_visible :: "locator \<Rightarrow> bool driver_result"
  is_enabled :: "locator \<Rightarrow> bool driver_result"
  get_locator_for_node_id :: "a11y_node \<Rightarrow> string \<Rightarrow> locator option"
  get_html_selector :: "locator \<Rightarrow> html_selectors option"

record browser_snapshot =
  metadata_url :: string
  a11y_tree_raw :: a11y_node

record processed_browser_snapshot =
  context_node :: dom_node
  context_snapshot :: browser_snapshot

record resolved_locator =
  rl_role :: node_role_or_str
  rl_is_editable :: bool
  rl_input_type :: "string option"
  rl_selector :: node_selectors

record 'p action =
  action_id :: string
  action_description :: string
  action_category :: string
  action_params :: 'p

record ('p, 'v) executable_action =
  ea_id :: string
  ea_description :: string
  ea_category :: string
  ea_params :: 'p
  ea_params_values :: "'v list"
  ea_status :: string
  ea_code :: "string option"
  ea_locator :: resolved_locator

section \<open>ActionNodeResolutionPipe\<close>

text \<open>
  \<^verbatim>\<open>get_valid_locator\<close>: the outer loop runs over the candidate selectors, the inner loop
  over the frames of the page. A count of exactly one returns at once; an exception of
  the probe is caught and the next frame tried.
\<close>

fun probe_frames ::
  "browser_driver \<Rightarrow> string \<Rightarrow> frame list \<Rightarrow> driver_call list \<Rightarrow> locator option \<times> driver_call list" where
  "probe_frames B selector [] calls = (None, calls)"
| "probe_frames B selector (fr # rest) calls =
     (case locator_count B fr selector of
        Returns count \<Rightarrow>
          if count = 1 then (Some (Locator fr selector), calls @ [Count fr selector])
          else probe_frames B selector rest (calls @ [Count fr selector])
      | Raises \<Rightarrow> probe_frames B selector rest (calls @ [Count fr selector]))"

fun probe_selectors ::
  "browser_driver \<Rightarrow> string list \<Rightarrow> driver_call list \<Rightarrow> (locator \<times> string) option \<times> driver_call list" where
  "probe_selectors B [] calls = (None, calls)"
| "probe_selectors B (selector # rest) calls =
     (case probe_frames B selector (frames B) calls of
        (Some loc, calls') \<Rightarrow> (Some (loc, selector), calls')
      | (None, calls') \<Rightarrow> probe_selectors B rest calls')"

definition get_valid_locator ::
  "browser_driver \<Rightarrow> node_selectors \<Rightarrow> driver_call list \<Rightarrow> (error + locator \<times> string) \<times> driver_call list" where
  "get_valid_locator B sels calls =
     (if length (selectors sels) = 0
      then (Inl (InvalidInternalCheckError NoSelectorsFound (Some ''unknown url'')), calls)
      else case probe_selectors B (selectors sels) calls of
             (Some found, calls') \<Rightarrow> (Inr found, calls')
           | (None, calls') \<Rightarrow> (Inl (FailedUniqueLocatorResolutionError sels), calls'))"

text \<open>
  \<^verbatim>\<open>fill_node_selectors\<close> mutates the node's computed attributes in place; the node is
  returned updated.
\<close>

definition set_selectors :: "dom_node \<Rightarrow> node_selectors \<Rightarrow> dom_node" where
  "set_selectors n s =
     DomNodeObj (node_id n) (node_type n) (node_role n) (node_text n) (children n) (attributes n)
       ((computed_attributes n)\<lparr>cda_selectors := Some s\<rparr>) (subtree_ids n)"

definition fill_node_selectors ::
  "browser_driver \<Rightarrow> dom_node \<Rightarrow> browser_snapshot \<Rightarrow> driver_call list \<Rightarrow>
   (error + unit) \<times> dom_node \<times> driver_call list" where
  "fill_node_selectors B n snapshot calls =
     (case cda_selectors (computed_attributes n) of
        Some s \<Rightarrow> (Inr (), n, calls)
      | None \<Rightarrow>
          (case node_id n of
             None \<Rightarrow> (Inl AssertionError, n, calls)
           | Some ident \<Rightarrow>
               (case get_locator_for_node_id B (a11y_tree_raw snapshot) ident of
                  None \<Rightarrow> (Inl (FailedNodeResolutionError n), n, calls @ [GetLocatorForNodeId ident])
                | Some loc \<Rightarrow>
                    (case get_html_selector B loc of
                       None \<Rightarrow> (Inl (FailedNodeResolutionError n), n,
                                calls @ [GetLocatorForNodeId ident, GetHtmlSelector loc])
                     | Some hs \<Rightarrow>
                         (Inr (),
                          set_selectors n
                            \<lparr>css_selector = hs_css_selector hs, xpath_selector = hs_xpath_selector hs,
                             notte_selector = [], in_iframe = False, in_shadow_root = False,
                             iframe_parent_css_selectors = [],
                             playwright_selector = hs_playwright_selector hs\<rparr>,
                          calls @ [GetLocatorForNodeId ident, GetHtmlSelector loc])))))"

text \<open>
  The live-state probes of \<^verbatim>\<open>compute_attributes\<close>, in the order of the source: editable,
  the input type if editable, visible, enabled. No \<^verbatim>\<open>except\<close> clause surrounds them.
\<close>

definition probe_state ::
  "browser_driver \<Rightarrow> locator \<Rightarrow> driver_call list \<Rightarrow>
   (error + bool \<times> string option \<times> bool \<times> bool) \<times> driver_call list" where
  "probe_state B loc calls =
     (case is_editable B loc of
        Raises \<Rightarrow> (Inl DriverError, calls @ [IsEditable loc])
      | Returns editable \<Rightarrow>
          (let calls1 = calls @ [IsEditable loc];
               attr = (if editable then get_attribute_type B loc else Returns None);
               calls2 = (if editable then calls1 @ [GetAttributeType loc] else calls1)
           in case attr of
                Raises \<Rightarrow> (Inl DriverError, calls2)
              | Returns input_type \<Rightarrow>
                  (case is_visible B loc of
                     Raises \<Rightarrow> (Inl DriverError, calls2 @ [IsVisible loc])
                   | Returns vis \<Rightarrow>
                       (case is_enabled B loc of
                          Raises \<Rightarrow> (Inl DriverError, calls2 @ [IsVisible loc, IsEnabled loc])
                        | Returns en \<Rightarrow>
                            (Inr (editable, input_type, vis, en),
                             calls2 @ [IsVisible loc, IsEnabled loc])))))"

definition compute_attributes ::
  "browser_driver \<Rightarrow> dom_node \<Rightarrow> browser_snapshot \<Rightarrow> driver_call list \<Rightarrow>
   (error + resolved_locator) \<times> dom_node \<times> driver_call list" where
  "compute_attributes B n snapshot calls =
     (if node_id n = None
      then (Inl (InvalidInternalCheckError NodeIdCannotBeNone (Some (metadata_url snapshot))), n, calls)
      else
        case (if cda_selectors (computed_attributes n) = None
              then fill_node_selectors B n snapshot calls else (Inr (), n, calls)) of
          (Inl e, n1, calls1) \<Rightarrow> (Inl e, n1, calls1)
        | (Inr u, n1, calls1) \<Rightarrow>
            (case cda_selectors (computed_attributes n1) of
               None \<Rightarrow>
                 (Inl (InvalidInternalCheckError NoSelectorsFound (Some (metadata_url snapshot))),
                  n1, calls1)
             | Some sels \<Rightarrow>
                 (case get_valid_locator B sels calls1 of
                    (Inl e, calls2) \<Rightarrow> (Inl e, n1, calls2)
                  | (Inr (loc, selector), calls2) \<Rightarrow>
                      (case probe_state B loc calls2 of
                         (Inl e, calls3) \<Rightarrow> (Inl e, n1, calls3)
                       | (Inr (editable, input_type, vis, en), calls3) \<Rightarrow>
                           if \<not> vis \<or> \<not> en then (Inl (FailedNodeResolutionError n1), n1, calls3)
                           else
                             (Inr \<lparr>rl_role = node_role n1, rl_is_editable = editable,
                                   rl_input_type = input_type,
                                   rl_selector =
                                     \<lparr>css_selector = css_selector sels,
                                      xpath_selector = xpath_selector sels,
                                      notte_selector = notte_selector sels,
                                      in_iframe = in_iframe sels,
                                      in_shadow_root = in_shadow_root sels,
                                      iframe_parent_css_selectors = iframe_parent_css_selectors sels,
                                      playwright_selector = Some selector\<rparr>\<rparr>,
                              n1, calls3)))))"

text \<open>
  \<^verbatim>\<open>forward\<close>: the lookup in the graph, the two checks on its result (\<open>forward_found\<close> is the
  body after the lookup), then the resolution. The node that \<^verbatim>\<open>find\<close> returns shares its
  computed attributes with the node of the graph.
\<close>

definition forward_found ::
  "browser_driver \<Rightarrow> 'p action \<Rightarrow> 'v list \<Rightarrow> processed_browser_snapshot \<Rightarrow> dom_node option \<Rightarrow>
   driver_call list \<Rightarrow> (error + ('p, 'v) executable_action) \<times> driver_call list" where
  "forward_found B act params_values context found calls =
     (case found of
        None \<Rightarrow>
          (Inl (InvalidInternalCheckError (NodeNotFoundInGraph (action_id act))
                  (Some (metadata_url (context_snapshot context)))), calls)
      | Some n \<Rightarrow>
          if node_id n \<noteq> Some (action_id act)
          then (Inl (InvalidInternalCheckError (ResolvedIdMismatch (node_id n) (action_id act))
                       (Some (metadata_url (context_snapshot context)))), calls)
          else
            (case compute_attributes B n (context_snapshot context) calls of
               (Inl e, n', calls') \<Rightarrow> (Inl e, calls')
             | (Inr resolved, n', calls') \<Rightarrow>
                 (Inr \<lparr>ea_id = action_id act, ea_description = action_description act,
                       ea_category = action_category act, ea_params = action_params act,
                       ea_params_values = params_values, ea_status = ''valid'', ea_code = None,
                       ea_locator = resolved\<rparr>, calls')))"

definition forward ::
  "node_role_enum \<Rightarrow> browser_driver \<Rightarrow> 'p action \<Rightarrow> 'v list \<Rightarrow> processed_browser_snapshot \<Rightarrow>
   driver_call list \<Rightarrow> (error + ('p, 'v) executable_action) \<times> driver_call list" where
  "forward E B act params_values context calls =
     (case find_node E (context_node context) (action_id act) of
        Inl e \<Rightarrow> (Inl e, calls)
      | Inr found \<Rightarrow> forward_found B act params_values context found calls)"

section \<open>Notions of the specification\<close>

text \<open>
  The order of probing as the specification words it: every candidate selector, in the
  order of the bundle, with every frame, in the order of the page. A pair is accepted
  when its probe returns the count one; \<open>accepted_pair\<close> is the first such pair.
\<close>

definition unique_match :: "browser_driver \<Rightarrow> string \<times> frame \<Rightarrow> bool" where
  "unique_match B p = (locator_count B (snd p) (fst p) = Returns 1)"

definition probe_order :: "browser_driver \<Rightarrow> node_selectors \<Rightarrow> (string \<times> frame) list" where
  "probe_order B sels = List.product (selectors sels) (frames B)"

definition count_call :: "string \<times> frame \<Rightarrow> driver_call" where
  "count_call p = Count (snd p) (fst p)"

definition accepted_pair :: "browser_driver \<Rightarrow> node_selectors \<Rightarrow> (string \<times> frame) option" where
  "accepted_pair B sels = List.find (unique_match B) (probe_order B sels)"

text \<open>
  The two calls of the fallback resolution of \<^verbatim>\<open>fill_node_selectors\<close>.
\<close>

definition is_fallback_call :: "driver_call \<Rightarrow> bool" where
  "is_fallback_call c =
     (case c of GetLocatorForNodeId i \<Rightarrow> True | GetHtmlSelector l \<Rightarrow> True | _ \<Rightarrow> False)"

text \<open>
  Modelled from the spec: the classes of module notte.errors.resolution are not part of the
  sources at hand. The spec's failure class NodeResolutionFailure covers both "no unique
  locator" (\<^verbatim>\<open>FailedUniqueLocatorResolutionError\<close>) and "not actionable"
  (\<^verbatim>\<open>FailedNodeResolutionError\<close>). \<open>error_class\<close> is the name of the Python class raised.
\<close>

definition is_node_resolution_failure :: "error \<Rightarrow> bool" where
  "is_node_resolution_failure e =
     (case e of
        FailedNodeResolutionError n \<Rightarrow> True
      | FailedUniqueLocatorResolutionError s \<Rightarrow> True
      | _ \<Rightarrow> False)"

definition error_class :: "error \<Rightarrow> string" where
  "error_class e =
     (case e of
        InvalidInternalCheckError c u \<Rightarrow> ''InvalidInternalCheckError''
      | NodeFilteringResultsInEmptyGraph u r \<Rightarrow> ''NodeFilteringResultsInEmptyGraph''
      | FailedNodeResolutionError n \<Rightarrow> ''FailedNodeResolutionError''
      | FailedUniqueLocatorResolutionError s \<Rightarrow> ''FailedUniqueLocatorResolutionError''
      | AssertionError \<Rightarrow> ''AssertionError''
      | DriverError \<Rightarrow> ''DriverError'')"

text \<open>
  Two nodes that agree on every field except, possibly, the cached selectors.
\<close>

definition same_but_selectors :: "dom_node \<Rightarrow> dom_node \<Rightarrow> bool" where
  "same_but_selectors n n' =
     (node_id n' = node_id n \<and> node_type n' = node_type n \<and> node_role n' = node_role n
      \<and> node_text n' = node_text n \<and> children n' = children n \<and> attributes n' = attributes n
      \<and> subtree_ids n' = subtree_ids n
      \<and> computed_attributes n' =
          (computed_attributes n)\<lparr>cda_selectors := cda_selectors (computed_attributes n')\<rparr>)"

text \<open>
  A constructed tree: every node is as \<^verbatim>\<open>__post_init__\<close> leaves it, with its role classified
  and its \<^verbatim>\<open>subtree_ids\<close> derived from its id and its children. Every \<^verbatim>\<open>DomNode\<close> object
  is of this kind, since the dataclass is frozen and \<^verbatim>\<open>__post_init__\<close> runs on construction.
\<close>

fun post_init_ok :: "node_role_enum \<Rightarrow> dom_node \<Rightarrow> bool" where
  "post_init_ok E (DomNodeObj i t r tx cs a ca sids) =
     (classify_role E r = r
      \<and> sids = (case i of None \<Rightarrow> [] | Some x \<Rightarrow> [x]) @ concat (map subtree_ids cs)
      \<and> (\<forall>c \<in> set cs. post_init_ok E c))"

text \<open>
  The ids present in a payload and in a tree, in pre-order.
\<close>

fun payload_ids :: "a11y_node \<Rightarrow> string list" where
  "payload_ids (A11yNode rl nm chs ident hi iv ii ite sr vis en hid) =
     (case ident of None \<Rightarrow> [] | Some x \<Rightarrow> [x]) @ concat (map payload_ids chs)"

definition present_ids :: "node_role_enum \<Rightarrow> dom_node \<Rightarrow> string list" where
  "present_ids E n = List.map_filter node_id (flatten E n False)"

text \<open>
  A predicate on nodes whose value depends only on the id, kind, role, text, attributes and
  computed attributes of the node: not on its children, not on the ids derived from them
  and, a node being the value of its fields, not on the Python class or the parent of the
  object.
\<close>

definition children_insensitive :: "(dom_node \<Rightarrow> bool) \<Rightarrow> bool" where
  "children_insensitive ft =
     (\<forall>n cs sids.
        ft (DomNodeObj (node_id n) (node_type n) (node_role n) (node_text n) cs (attributes n)
              (computed_attributes n) sids) = ft n)"

section \<open>Example inputs\<close>

text \<open>
  Modelled from the spec: four role names of the spec's examples stand for the members of
  \<^verbatim>\<open>NodeRole\<close>; every other string is an unrecognised role.
\<close>

definition spec_roles :: node_role_enum where
  "spec_roles =
     \<lparr>from_value = (\<lambda>s. if s = ''WebArea'' \<or> s = ''button'' \<or> s = ''text'' \<or> s = ''dialog''
                          then Some s else None),
      category = (\<lambda>v. if v = ''button'' then CAT_INTERACTION
                       else if v = ''text'' then CAT_TEXT else CAT_OTHER)\<rparr>"

text \<open>
  Payloads: the end-to-end example of the specification, and a deeper one with two ids, an
  unrecognised role and an empty leaf.
\<close>

definition leaf_payload :: "string \<Rightarrow> string \<Rightarrow> string option \<Rightarrow> a11y_node" where
  "leaf_payload rl nm ident = A11yNode rl nm [] ident None None None None None None None None"

definition spec_payload :: a11y_node where
  "spec_payload =
     A11yNode ''WebArea'' [] [leaf_payload ''button'' ''Submit'' (Some ''B1'')]
       None None None None None None None None None"

definition nested_payload :: a11y_node where
  "nested_payload =
     A11yNode ''WebArea'' []
       [leaf_payload ''button'' ''Submit'' (Some ''B1''),
        A11yNode ''generic'' []
          [leaf_payload ''link'' ''More'' (Some ''L1''), leaf_payload ''text'' ''hello'' None,
           leaf_payload ''generic'' [] None]
          None None None None None None None None None]
       None None None None None None None None None"

text \<open>
  Nodes. \<open>default_computed\<close> is \<^verbatim>\<open>ComputedDomAttributes()\<close> with its defaults.
\<close>

definition default_computed :: computed_dom_attributes where
  "default_computed =
     \<lparr>in_viewport = False, is_interactive = False, is_top_element = False, cda_is_editable = False,
      shadow_root = False, highlight_index = None, cda_selectors = None\<rparr>"

definition no_attributes :: dom_attributes where
  "no_attributes = \<lparr>visible = None, enabled = None, hidden = None\<rparr>"

definition text_child :: "string \<Rightarrow> bool option \<Rightarrow> dom_node" where
  "text_child tx h =
     new_DomNode spec_roles None TEXT (NodeRole ''text'') tx []
       (Some \<lparr>visible = None, enabled = None, hidden = h\<rparr>) default_computed"

definition hidden_example :: dom_node where
  "hidden_example =
     new_DomNode spec_roles None OTHER (NodeRole ''WebArea'') []
       [text_child ''secret'' (Some True), text_child ''shown'' (Some False), text_child ''plain'' None]
       None default_computed"

definition interaction_with_child :: dom_node where
  "interaction_with_child =
     new_DomNode spec_roles (Some ''B1'') INTERACTION (NodeRole ''button'') ''Submit''
       [text_child ''Submit'' None] None default_computed"

definition nested_tree :: dom_node where
  "nested_tree = from_a11y_node spec_roles nested_payload []"

definition nested_tree_without_button :: dom_node where
  "nested_tree_without_button =
     new_DomNode spec_roles None OTHER (NodeRole ''WebArea'') []
       [new_DomNode spec_roles None OTHER (Str ''generic'') []
          [new_DomNode spec_roles (Some ''L1'') INTERACTION (Str ''link'') ''More'' []
             (Some no_attributes) default_computed,
           new_DomNode spec_roles None TEXT (NodeRole ''text'') ''hello'' []
             (Some no_attributes) default_computed]
          (Some no_attributes) default_computed]
       (Some no_attributes) default_computed"

definition button_node :: dom_node where
  "button_node = from_a11y_node spec_roles (leaf_payload ''button'' ''Submit'' (Some ''B1'')) []"

definition custom_node :: dom_node where
  "custom_node =
     new_DomNode spec_roles (Some ''X1'') INTERACTION (Str ''custom'') ''Widget'' [] None default_computed"

definition has_children :: "dom_node \<Rightarrow> bool" where
  "has_children n = (length (children n) > 0)"

text \<open>
  A page with two frames. The engine-specific selector matches nothing, the css selector
  matches twice in the first frame and once in the second, the xpath selector once in each.
\<close>

definition example_selectors :: node_selectors where
  "example_selectors =
     \<lparr>css_selector = ''#submit'', xpath_selector = ''//button[1]'', notte_selector = ''example.org:main:button'',
      in_iframe = False, in_shadow_root = False, iframe_parent_css_selectors = [],
      playwright_selector = Some ''internal:role=button''\<rparr>"

definition example_html_selectors :: html_selectors where
  "example_html_selectors =
     \<lparr>hs_playwright_selector = Some ''internal:role=button'', hs_css_selector = ''#submit'',
      hs_xpath_selector = ''//button[1]''\<rparr>"

definition example_counts :: "frame \<Rightarrow> string \<Rightarrow> nat driver_result" where
  "example_counts fr selector =
     (if selector = ''internal:role=button'' then Returns 0
      else if selector = ''#submit'' then (if fr = ''main'' then Returns 2 else Returns 1)
      else if selector = ''//button[1]'' then Returns 1
      else Raises)"

definition example_browser :: browser_driver where
  "example_browser =
     \<lparr>frames = [''main'', ''ad''],
      locator_count = example_counts,
      is_editable = (\<lambda>loc. Returns False),
      get_attribute_type = (\<lambda>loc. Returns None),
      is_visible = (\<lambda>loc. Returns True),
      is_enabled = (\<lambda>loc. Returns True),
      get_locator_for_node_id = (\<lambda>raw ident. if ident = ''B1'' then Some (Locator ''main'' ''aria-ref=B1'') else None),
      get_html_selector = (\<lambda>loc. Some example_html_selectors)\<rparr>"

definition ambiguous_browser :: browser_driver where
  "ambiguous_browser =
     example_browser\<lparr>locator_count :=
       (\<lambda>fr selector. if selector = ''#submit'' then Returns 2
                       else if selector = ''//button[1]'' then Raises else Returns 0)\<rparr>"

definition invisible_browser :: browser_driver where
  "invisible_browser = example_browser\<lparr>is_visible := (\<lambda>loc. Returns False)\<rparr>"

definition disabled_browser :: browser_driver where
  "disabled_browser = example_browser\<lparr>is_enabled := (\<lambda>loc. Returns False)\<rparr>"

definition raising_browser :: browser_driver where
  "raising_browser =
     example_browser\<lparr>is_editable := (\<lambda>loc. Raises), is_visible := (\<lambda>loc. Returns False)\<rparr>"

text \<open>
  A snapshot and a context over the specification's example, an action on it, and nodes
  whose selectors are already cached.
\<close>

definition example_snapshot :: browser_snapshot where
  "example_snapshot = \<lparr>metadata_url = ''https://example.org'', a11y_tree_raw = spec_payload\<rparr>"

definition example_context :: processed_browser_snapshot where
  "example_context =
     \<lparr>context_node = from_a11y_node spec_roles spec_payload [], context_snapshot = example_snapshot\<rparr>"

definition example_action :: "string \<Rightarrow> unit action" where
  "example_action ident =
     \<lparr>action_id = ident, action_description = ''Submit the form'', action_category = ''Form'',
      action_params = ()\<rparr>"

definition cached_button :: dom_node where
  "cached_button = set_selectors button_node example_selectors"

definition anonymous_cached_node :: dom_node where
  "anonymous_cached_node =
     new_DomNode spec_roles None OTHER (Str ''generic'') ''banner'' [] None
       (default_computed\<lparr>cda_selectors := Some example_selectors\<rparr>)"

section \<open>Auxiliary facts\<close>

lemma probe_frames_char:
  "probe_frames B s fs calls =
     (case List.find (\<lambda>f. unique_match B (s, f)) fs of
        None \<Rightarrow> (None, calls @ map (\<lambda>f. count_call (s, f)) fs)
      | Some f \<Rightarrow> (Some (Locator f s),
                   calls @ map (\<lambda>f. count_call (s, f)) (takeWhile (\<lambda>f. \<not> unique_match B (s, f)) fs) @ [count_call (s, f)]))"
proof (induction fs arbitrary: calls)
  case Nil
  show ?case by simp
next
  case (Cons f fs)
  show ?case
  proof (cases "locator_count B f s")
    case Raises
    then show ?thesis using Cons[of "calls @ [Count f s]"]
      by (simp add: unique_match_def count_call_def split: option.splits)
  next
    case (Returns c)
    then show ?thesis using Cons[of "calls @ [Count f s]"]
      by (simp add: unique_match_def count_call_def split: option.splits)
  qed
qed

lemma find_append:
  "List.find P (xs @ ys) = (case List.find P xs of None \<Rightarrow> List.find P ys | Some x \<Rightarrow> Some x)"
  by (induction xs) auto

lemma find_map: "List.find P (map f xs) = map_option f (List.find (P \<circ> f) xs)"
  by (induction xs) auto

lemma takeWhile_append_if:
  "takeWhile Q (xs @ ys) = (if \<forall>x\<in>set xs. Q x then xs @ takeWhile Q ys else takeWhile Q xs)"
  by (induction xs) auto

lemma probe_selectors_char:
  "probe_selectors B ss calls =
     (case List.find (unique_match B) (List.product ss (frames B)) of
        None \<Rightarrow> (None, calls @ map count_call (List.product ss (frames B)))
      | Some p \<Rightarrow> (Some (Locator (snd p) (fst p), fst p),
                   calls @ map count_call (takeWhile (\<lambda>p. \<not> unique_match B p) (List.product ss (frames B))) @ [count_call p]))"
proof (induction ss arbitrary: calls)
  case Nil
  show ?case by simp
next
  case (Cons s ss)
  show ?case
  proof (cases "List.find (\<lambda>f. unique_match B (s, f)) (frames B)")
    case None
    then have a: "List.find (unique_match B) (map (Pair s) (frames B)) = None"
      by (simp add: find_map comp_def)
    have c: "\<forall>x \<in> set (map (Pair s) (frames B)). \<not> unique_match B x"
      using a by (simp add: find_None_iff)
    have t: "takeWhile (\<lambda>p. \<not> unique_match B p) (map (Pair s) (frames B) @ List.product ss (frames B))
       = map (Pair s) (frames B) @ takeWhile (\<lambda>p. \<not> unique_match B p) (List.product ss (frames B))"
      using c by (subst takeWhile_append_if) simp
    show ?thesis using None a Cons[of "calls @ map (\<lambda>f. count_call (s, f)) (frames B)"]
      by (simp add: probe_frames_char find_append t comp_def split: option.splits)
  next
    case (Some f)
    then have a: "List.find (unique_match B) (map (Pair s) (frames B)) = Some (s, f)"
      by (simp add: find_map comp_def)
    then have m: "\<not> (\<forall>x \<in> set (map (Pair s) (frames B)). \<not> unique_match B x)"
      by (auto simp: find_Some_iff)
    have t: "takeWhile (\<lambda>p. \<not> unique_match B p) (map (Pair s) (frames B) @ List.product ss (frames B))
       = takeWhile (\<lambda>p. \<not> unique_match B p) (map (Pair s) (frames B))"
      using m by (subst takeWhile_append_if) auto
    show ?thesis using Some a
      by (simp add: probe_frames_char find_append t takeWhile_map comp_def split: option.splits)
  qed
qed


lemma get_valid_locator_char:
  "get_valid_locator B sels calls =
     (case List.find (unique_match B) (probe_order B sels) of
        None \<Rightarrow> (Inl (FailedUniqueLocatorResolutionError sels),
                 calls @ map count_call (probe_order B sels))
      | Some p \<Rightarrow> (Inr (Locator (snd p) (fst p), fst p),
                   calls @ map count_call (takeWhile (\<lambda>q. \<not> unique_match B q) (probe_order B sels))
                     @ [count_call p]))"
  by (simp add: get_valid_locator_def probe_order_def probe_selectors_char selectors_def
           split: option.splits)

lemma flatten_children_acc:
  assumes "\<And>c acc. c \<in> set cs \<Longrightarrow> flatten_inner E oi c acc = acc @ flatten_inner E oi c []"
  shows "flatten_children E oi cs acc = acc @ flatten_children E oi cs []"
  using assms
proof (induction cs arbitrary: acc)
  case Nil
  show ?case by simp
next
  case (Cons c cs)
  have step: "\<And>acc. flatten_children E oi cs acc = acc @ flatten_children E oi cs []"
    by (rule Cons.IH) (rule Cons.prems, simp)
  have "flatten_children E oi (c # cs) acc = flatten_children E oi cs (flatten_inner E oi c acc)"
    by simp
  also have "\<dots> = flatten_inner E oi c acc @ flatten_children E oi cs []"
    by (rule step)
  also have "\<dots> = (acc @ flatten_inner E oi c []) @ flatten_children E oi cs []"
    by (subst Cons.prems[of c acc]) simp_all
  also have "\<dots> = acc @ flatten_children E oi cs (flatten_inner E oi c [])"
    using step[of "flatten_inner E oi c []"] by simp
  finally show ?case by simp
qed

lemma flatten_inner_acc: "flatten_inner E oi n acc = acc @ flatten_inner E oi n []"
proof (induction n arbitrary: acc)
  case (DomNodeObj i t r tx cs a ca sids)
  have ch: "\<And>acc. flatten_children E oi cs acc = acc @ flatten_children E oi cs []"
    by (rule flatten_children_acc) (rule DomNodeObj)
  show ?case
  proof (cases "\<not> oi \<or> is_interaction E (DomNodeObj i t r tx cs a ca sids)")
    case True
    have "flatten_inner E oi (DomNodeObj i t r tx cs a ca sids) acc =
        flatten_children E oi cs (acc @ [DomNodeObj i t r tx cs a ca sids])"
      using True by simp
    also have "\<dots> = (acc @ [DomNodeObj i t r tx cs a ca sids]) @ flatten_children E oi cs []"
      by (rule ch)
    also have "\<dots> = acc @ flatten_children E oi cs [DomNodeObj i t r tx cs a ca sids]"
      using ch[of "[DomNodeObj i t r tx cs a ca sids]"] by simp
    also have "\<dots> = acc @ flatten_inner E oi (DomNodeObj i t r tx cs a ca sids) []"
      using True by simp
    finally show ?thesis .
  next
    case False
    have "flatten_inner E oi (DomNodeObj i t r tx cs a ca sids) acc = flatten_children E oi cs acc"
      using False by simp
    also have "\<dots> = acc @ flatten_children E oi cs []"
      by (rule ch)
    also have "\<dots> = acc @ flatten_inner E oi (DomNodeObj i t r tx cs a ca sids) []"
      using False by simp
    finally show ?thesis .
  qed
qed

lemma flatten_children_concat:
  "flatten_children E oi cs [] = concat (map (\<lambda>c. flatten_inner E oi c []) cs)"
proof (induction cs)
  case Nil
  show ?case by simp
next
  case (Cons c cs)
  have "flatten_children E oi (c # cs) [] = flatten_children E oi cs (flatten_inner E oi c [])"
    by simp
  also have "\<dots> = flatten_inner E oi c [] @ flatten_children E oi cs []"
    by (rule flatten_children_acc) (rule flatten_inner_acc)
  finally show ?case using Cons by simp
qed

lemma flatten_all:
  "flatten E (DomNodeObj i t r tx cs a ca sids) False =
     DomNodeObj i t r tx cs a ca sids # concat (map (\<lambda>c. flatten E c False) cs)"
proof -
  have "flatten_children E False cs [DomNodeObj i t r tx cs a ca sids] =
      [DomNodeObj i t r tx cs a ca sids] @ flatten_children E False cs []"
    by (rule flatten_children_acc) (rule flatten_inner_acc)
  then show ?thesis
    by (simp add: flatten_def flatten_children_concat)
qed

lemma classify_role_idem: "classify_role E (classify_role E r) = classify_role E r"
  by (simp add: classify_role_def split: node_role_or_str.splits option.splits)

lemma map_filter_concat:
  "List.map_filter f (concat xss) = concat (map (List.map_filter f) xss)"
  by (induction xss) (simp_all add: List.map_filter_def)

lemma subtree_ids_present: "post_init_ok E n \<Longrightarrow> subtree_ids n = present_ids E n"
proof (induction n)
  case (DomNodeObj i t r tx cs a ca sids)
  have "map subtree_ids cs = map (present_ids E) cs"
    using DomNodeObj by simp
  then have "concat (map subtree_ids cs) = concat (map (present_ids E) cs)"
    by (rule arg_cong)
  moreover have "sids = (case i of None \<Rightarrow> [] | Some x \<Rightarrow> [x]) @ concat (map subtree_ids cs)"
    using DomNodeObj.prems by simp
  ultimately have "sids = (case i of None \<Rightarrow> [] | Some x \<Rightarrow> [x]) @ concat (map (present_ids E) cs)"
    by (simp only:)
  moreover have "present_ids E (DomNodeObj i t r tx cs a ca sids) =
      (case i of None \<Rightarrow> [] | Some x \<Rightarrow> [x]) @ concat (map (present_ids E) cs)"
    unfolding present_ids_def flatten_all
    by (simp add: map_filter_simps map_filter_concat comp_def split: option.splits)
  ultimately show ?case by simp
qed

lemma post_init_ok_from_a11y: "post_init_ok E (from_a11y_node E p sel)"
proof (induction p)
  case (A11yNode rl nm chs ident hi iv ii ite sr vis en hid)
  then show ?case
    by (simp add: new_DomNode_def classify_role_idem Let_def)
qed

lemma subtree_ids_from_a11y: "subtree_ids (from_a11y_node E p sel) = payload_ids p"
proof (induction p)
  case (A11yNode rl nm chs ident hi iv ii ite sr vis en hid)
  then have "map (subtree_ids \<circ> (\<lambda>c. from_a11y_node E c sel)) chs = map payload_ids chs"
    by simp
  then have "concat (map (subtree_ids \<circ> (\<lambda>c. from_a11y_node E c sel)) chs) = concat (map payload_ids chs)"
    by (rule arg_cong)
  then show ?case
    by (simp add: new_DomNode_def Let_def)
qed

lemma post_init_ok_flatten:
  "post_init_ok E n \<Longrightarrow> x \<in> set (flatten E n False) \<Longrightarrow> post_init_ok E x"
proof (induction n)
  case (DomNodeObj i t r tx cs a ca sids)
  from DomNodeObj.prems(2) show ?case
    unfolding flatten_all using DomNodeObj.IH DomNodeObj.prems(1) by auto
qed

lemma post_init_ok_local:
  "post_init_ok E x \<Longrightarrow>
   subtree_ids x = (case node_id x of None \<Rightarrow> [] | Some i \<Rightarrow> [i]) @ concat (map subtree_ids (children x))"
  by (cases x) simp

lemma set_map_filter_node_id:
  "set (List.map_filter node_id xs) = {i. \<exists>n \<in> set xs. node_id n = Some i}"
  by (induction xs) (auto simp: map_filter_simps split: option.splits)

lemma filtered_children_idem:
  assumes "\<And>c m. c \<in> set cs \<Longrightarrow> subtree_filter_inner E ft c = Some m \<Longrightarrow> subtree_filter_inner E ft m = Some m"
  shows "filtered_children E ft (filtered_children E ft cs) = filtered_children E ft cs"
  using assms
proof (induction cs)
  case Nil
  show ?case by simp
next
  case (Cons c cs)
  have rest: "filtered_children E ft (filtered_children E ft cs) = filtered_children E ft cs"
  proof (rule Cons.IH)
    fix k m assume "k \<in> set cs" "subtree_filter_inner E ft k = Some m"
    then show "subtree_filter_inner E ft m = Some m"
      using Cons.prems[of k m] by simp
  qed
  show ?case
  proof (cases "subtree_filter_inner E ft c")
    case None
    then show ?thesis using rest by simp
  next
    case (Some m)
    have "subtree_filter_inner E ft m = Some m"
      using Cons.prems[of c m] Some by simp
    then show ?thesis using Some rest by simp
  qed
qed

lemma children_insensitiveD:
  assumes "children_insensitive ft"
  shows "ft (DomNodeObj i t r tx cs a ca sids) = ft (DomNodeObj i t r tx cs' a ca sids')"
proof -
  have a: "\<forall>n cs sids. ft (DomNodeObj (node_id n) (node_type n) (node_role n) (node_text n) cs
          (attributes n) (computed_attributes n) sids) = ft n"
    using assms unfolding children_insensitive_def .
  from a[rule_format, of "DomNodeObj i t r tx cs' a ca sids'" cs sids] show ?thesis
    by simp
qed

lemma subtree_filter_inner_idem:
  assumes ins: "children_insensitive ft"
  shows "post_init_ok E n \<Longrightarrow> subtree_filter_inner E ft n = Some m \<Longrightarrow> subtree_filter_inner E ft m = Some m"
proof (induction n arbitrary: m)
  case (DomNodeObj i t r tx cs a ca sids)
  let ?n = "DomNodeObj i t r tx cs a ca sids"
  let ?fc = "filtered_children E ft cs"
  have ft: "ft ?n"
    using DomNodeObj.prems(2) by (simp split: if_splits)
  have live: "\<not> (i = None \<and> length ?fc = 0 \<and> strip tx = [])"
    using DomNodeObj.prems(2) ft by (auto simp: Let_def split: if_splits)
  have r: "classify_role E r = r"
    using DomNodeObj.prems(1) by simp
  have m: "m = DomNodeObj i t r tx ?fc a ca ((case i of None \<Rightarrow> [] | Some x \<Rightarrow> [x]) @ concat (map subtree_ids ?fc))"
    using DomNodeObj.prems(2) ft live r by (auto simp: Let_def new_DomNode_def split: if_splits)
  have "ft m = ft ?n"
    unfolding m by (rule children_insensitiveD[OF ins])
  then have ftm: "ft m"
    using ft by simp
  have idem: "filtered_children E ft ?fc = ?fc"
  proof (rule filtered_children_idem)
    fix c k assume "c \<in> set cs" "subtree_filter_inner E ft c = Some k"
    then show "subtree_filter_inner E ft k = Some k"
      using DomNodeObj.IH DomNodeObj.prems(1) by simp
  qed
  have "subtree_filter_inner E ft m = Some (new_DomNode E i t r tx ?fc a ca)"
    using ftm live idem unfolding m by (simp add: Let_def)
  then show ?case
    by (simp add: new_DomNode_def r m)
qed

lemma subtree_filter_inner_all:
  assumes ins: "children_insensitive ft"
  shows "post_init_ok E n \<Longrightarrow> subtree_filter_inner E ft n = Some m \<Longrightarrow>
         x \<in> set (flatten E m False) \<Longrightarrow> ft x"
proof (induction n arbitrary: m x)
  case (DomNodeObj i t r tx cs a ca sids)
  let ?n = "DomNodeObj i t r tx cs a ca sids"
  let ?fc = "filtered_children E ft cs"
  have ft: "ft ?n"
    using DomNodeObj.prems(2) by (simp split: if_splits)
  have r: "classify_role E r = r"
    using DomNodeObj.prems(1) by simp
  have m: "m = DomNodeObj i t r tx ?fc a ca ((case i of None \<Rightarrow> [] | Some x \<Rightarrow> [x]) @ concat (map subtree_ids ?fc))"
    using DomNodeObj.prems(2) ft r by (auto simp: Let_def new_DomNode_def split: if_splits)
  have "ft m = ft ?n"
    unfolding m by (rule children_insensitiveD[OF ins])
  then have ftm: "ft m"
    using ft by simp
  have kids: "\<And>k. k \<in> set ?fc \<Longrightarrow> \<exists>c \<in> set cs. subtree_filter_inner E ft c = Some k"
  proof -
    fix k show "k \<in> set ?fc \<Longrightarrow> \<exists>c \<in> set cs. subtree_filter_inner E ft c = Some k"
      by (induction cs) (auto split: option.splits)
  qed
  from DomNodeObj.prems(3) consider "x = m" | k where "k \<in> set ?fc" "x \<in> set (flatten E k False)"
    unfolding m flatten_all by auto
  then show ?case
  proof cases
    case 1
    then show ?thesis using ftm by simp
  next
    case 2
    then obtain c where "c \<in> set cs" "subtree_filter_inner E ft c = Some k"
      using kids by blast
    then show ?thesis
      using DomNodeObj.IH[of c k x] DomNodeObj.prems(1) 2 by simp
  qed
qed

lemma only_roles_insensitive: "children_insensitive (only_roles roles)"
  by (simp add: children_insensitive_def only_roles_def)

lemma root_in_flatten: "n \<in> set (flatten E n False)"
  by (cases n) (simp add: flatten_all)

lemma subtree_filter_root_rejected:
  "\<not> ft n \<Longrightarrow> subtree_filter E n ft = None"
  by (cases n) (simp add: subtree_filter_def)

lemma from_leaf:
  "from_a11y_node E (leaf_payload rl nm ident) sel =
     new_DomNode E ident
       (case classify_role E (Str rl) of
          NodeRole v \<Rightarrow> if category E v = CAT_TEXT then TEXT else (if ident \<noteq> None then INTERACTION else OTHER)
        | Str s \<Rightarrow> (if ident \<noteq> None then INTERACTION else OTHER))
       (classify_role E (Str rl)) nm [] (Some no_attributes) default_computed"
  by (cases ident) (simp_all add: leaf_payload_def Let_def attributes_from_a11y_node_def get_bool_def
        no_attributes_def default_computed_def)

lemma classify_spec:
  "classify_role spec_roles (Str ''WebArea'') = NodeRole ''WebArea''"
  "classify_role spec_roles (Str ''button'') = NodeRole ''button''"
  "classify_role spec_roles (Str ''text'') = NodeRole ''text''"
  "classify_role spec_roles (Str ''generic'') = Str ''generic''"
  "classify_role spec_roles (Str ''link'') = Str ''link''"
  "classify_role spec_roles (Str ''custom'') = Str ''custom''"
  "classify_role spec_roles (NodeRole v) = NodeRole v"
  by (simp_all add: classify_role_def spec_roles_def)

lemma category_spec:
  "category spec_roles ''WebArea'' = CAT_OTHER"
  "category spec_roles ''button'' = CAT_INTERACTION"
  "category spec_roles ''text'' = CAT_TEXT"
  by (simp_all add: spec_roles_def)

lemma nested_tree_eval:
  "nested_tree =
     new_DomNode spec_roles None OTHER (NodeRole ''WebArea'') []
       [new_DomNode spec_roles (Some ''B1'') INTERACTION (NodeRole ''button'') ''Submit'' []
          (Some no_attributes) default_computed,
        new_DomNode spec_roles None OTHER (Str ''generic'') []
          [new_DomNode spec_roles (Some ''L1'') INTERACTION (Str ''link'') ''More'' []
             (Some no_attributes) default_computed,
           new_DomNode spec_roles None TEXT (NodeRole ''text'') ''hello'' []
             (Some no_attributes) default_computed,
           new_DomNode spec_roles None OTHER (Str ''generic'') [] []
             (Some no_attributes) default_computed]
          (Some no_attributes) default_computed]
       (Some no_attributes) default_computed"
  unfolding nested_tree_def nested_payload_def
  by (simp add: from_leaf classify_spec category_spec Let_def attributes_from_a11y_node_def
        get_bool_def no_attributes_def default_computed_def)

lemma strip_literals:
  "strip [] = []" "strip ''More'' \<noteq> []" "strip ''hello'' \<noteq> []" "strip ''Submit'' \<noteq> []"
  by (simp_all add: strip_def is_space_def)

lemma nested_tree_filtered:
  "subtree_filter spec_roles nested_tree (only_roles {''button''}) = Some nested_tree_without_button"
  unfolding nested_tree_eval nested_tree_without_button_def subtree_filter_def
  by (simp add: new_DomNode_def classify_spec only_roles_def strip_literals Let_def)

lemma button_node_eval:
  "button_node = new_DomNode spec_roles (Some ''B1'') INTERACTION (NodeRole ''button'') ''Submit'' []
          (Some no_attributes) default_computed"
  unfolding button_node_def by (simp add: from_leaf classify_spec category_spec)

lemma probe_state_fst: "fst (probe_state B loc calls) = fst (probe_state B loc [])"
  by (simp add: probe_state_def Let_def split: driver_result.splits)

lemma probe_state_calls:
  "\<exists>ext. snd (probe_state B loc calls) = calls @ ext \<and> (\<forall>c \<in> set ext. \<not> is_fallback_call c)"
  by (simp add: probe_state_def Let_def is_fallback_call_def split: driver_result.splits)

lemma count_call_not_fallback: "\<not> is_fallback_call (count_call p)"
  by (simp add: count_call_def is_fallback_call_def)

lemma get_valid_locator_calls:
  "\<exists>ext. snd (get_valid_locator B sels calls) = calls @ ext \<and> (\<forall>c \<in> set ext. \<not> is_fallback_call c)"
  by (cases "List.find (unique_match B) (probe_order B sels)")
     (auto simp: get_valid_locator_char count_call_not_fallback)

lemma compute_attributes_cached:
  assumes "node_id n = Some ident" "cda_selectors (computed_attributes n) = Some sels"
  shows "compute_attributes B n snapshot calls =
     (case get_valid_locator B sels calls of
        (Inl e, calls2) \<Rightarrow> (Inl e, n, calls2)
      | (Inr (loc, selector), calls2) \<Rightarrow>
          (case probe_state B loc calls2 of
             (Inl e, calls3) \<Rightarrow> (Inl e, n, calls3)
           | (Inr (editable, input_type, vis, en), calls3) \<Rightarrow>
               if \<not> vis \<or> \<not> en then (Inl (FailedNodeResolutionError n), n, calls3)
               else
                 (Inr \<lparr>rl_role = node_role n, rl_is_editable = editable,
                       rl_input_type = input_type,
                       rl_selector =
                         \<lparr>css_selector = css_selector sels,
                          xpath_selector = xpath_selector sels,
                          notte_selector = notte_selector sels,
                          in_iframe = in_iframe sels,
                          in_shadow_root = in_shadow_root sels,
                          iframe_parent_css_selectors = iframe_parent_css_selectors sels,
                          playwright_selector = Some selector\<rparr>\<rparr>,
                  n, calls3)))"
  using assms by (simp add: compute_attributes_def)

lemma compute_attributes_no_pair:
  assumes "node_id n = Some ident" "cda_selectors (computed_attributes n) = Some sels"
    and "List.find (unique_match B) (probe_order B sels) = None"
  shows "compute_attributes B n snapshot calls =
     (Inl (FailedUniqueLocatorResolutionError sels), n, calls @ map count_call (probe_order B sels))"
  using assms(3) by (simp add: compute_attributes_cached[OF assms(1,2)] get_valid_locator_char)

lemma compute_attributes_pair:
  assumes "node_id n = Some ident" "cda_selectors (computed_attributes n) = Some sels"
    and "List.find (unique_match B) (probe_order B sels) = Some p"
  shows "fst (compute_attributes B n snapshot calls) =
     (case fst (probe_state B (Locator (snd p) (fst p)) []) of
        Inl e \<Rightarrow> Inl e
      | Inr (editable, input_type, vis, en) \<Rightarrow>
          if \<not> vis \<or> \<not> en then Inl (FailedNodeResolutionError n)
          else Inr \<lparr>rl_role = node_role n, rl_is_editable = editable,
                       rl_input_type = input_type,
                       rl_selector =
                         \<lparr>css_selector = css_selector sels,
                          xpath_selector = xpath_selector sels,
                          notte_selector = notte_selector sels,
                          in_iframe = in_iframe sels,
                          in_shadow_root = in_shadow_root sels,
                          iframe_parent_css_selectors = iframe_parent_css_selectors sels,
                          playwright_selector = Some (fst p)\<rparr>\<rparr>)"
proof -
  let ?calls2 = "calls @ map count_call (takeWhile (\<lambda>q. \<not> unique_match B q) (probe_order B sels)) @ [count_call p]"
  let ?loc = "Locator (snd p) (fst p)"
  have g: "get_valid_locator B sels calls = (Inr (?loc, fst p), ?calls2)"
    using assms(3) by (simp add: get_valid_locator_char)
  obtain r calls3 where ps: "probe_state B ?loc ?calls2 = (r, calls3)"
    by (cases "probe_state B ?loc ?calls2")
  have r: "fst (probe_state B ?loc []) = r"
    using ps probe_state_fst[of B ?loc ?calls2] by simp
  show ?thesis
    unfolding compute_attributes_cached[OF assms(1,2)] g r
    using ps by (simp split: sum.splits prod.splits)
qed

lemma probe_state_not_failure:
  "fst (probe_state B loc calls) = Inl e \<Longrightarrow> e = DriverError"
  by (auto simp: probe_state_def Let_def split: driver_result.splits if_splits)

lemma ambiguous_accepted:
  "List.find (unique_match ambiguous_browser) (probe_order ambiguous_browser example_selectors) = None"
  by (simp add: probe_order_def selectors_def example_selectors_def ambiguous_browser_def
        example_browser_def unique_match_def)

lemma invisible_accepted:
  "List.find (unique_match invisible_browser) (probe_order invisible_browser example_selectors) =
     Some (''#submit'', ''ad'')"
  by (simp add: probe_order_def selectors_def example_selectors_def invisible_browser_def
        example_browser_def unique_match_def example_counts_def)

lemma cached_button_fields:
  "node_id cached_button = Some ''B1''"
  "cda_selectors (computed_attributes cached_button) = Some example_selectors"
  by (simp_all add: cached_button_def set_selectors_def button_node_eval new_DomNode_def)

lemma same_but_selectors_refl: "same_but_selectors n n"
  by (simp add: same_but_selectors_def)

lemma same_but_selectors_set: "same_but_selectors n (set_selectors n x)"
  by (simp add: same_but_selectors_def set_selectors_def)

lemma fill_node_selectors_cached:
  "cda_selectors (computed_attributes n) = Some s \<Longrightarrow>
   fill_node_selectors B n snapshot calls = (Inr (), n, calls)"
  by (simp add: fill_node_selectors_def)

lemma fill_node_selectors_node:
  "fst (snd (fill_node_selectors B n snapshot calls)) = n
   \<or> (cda_selectors (computed_attributes n) = None
       \<and> (\<exists>x. fst (snd (fill_node_selectors B n snapshot calls)) = set_selectors n x))"
  by (auto simp: fill_node_selectors_def split: option.splits)

lemma set_selectors_set: "cda_selectors (computed_attributes (set_selectors n x)) = Some x"
  by (simp add: set_selectors_def)

lemma compute_attributes_node:
  "fst (snd (compute_attributes B n snapshot calls)) =
     (if node_id n = None \<or> cda_selectors (computed_attributes n) \<noteq> None then n
      else fst (snd (fill_node_selectors B n snapshot calls)))"
  by (auto simp: compute_attributes_def split: prod.splits sum.splits option.splits if_splits)

lemma compute_attributes_cached_calls:
  assumes "cda_selectors (computed_attributes n) = Some s"
  shows "\<exists>ext. snd (snd (compute_attributes B n snapshot calls)) = calls @ ext
               \<and> (\<forall>c \<in> set ext. \<not> is_fallback_call c)"
proof (cases "node_id n")
  case None
  then show ?thesis by (simp add: compute_attributes_def)
next
  case (Some ident)
  obtain r calls2 where g: "get_valid_locator B s calls = (r, calls2)"
    by (cases "get_valid_locator B s calls")
  obtain ext where ext: "calls2 = calls @ ext" "\<forall>c \<in> set ext. \<not> is_fallback_call c"
    using get_valid_locator_calls[of B s calls] g by auto
  show ?thesis
  proof (cases r)
    case (Inl e)
    then show ?thesis
      using g ext by (simp add: compute_attributes_cached[OF Some assms])
  next
    case (Inr found)
    obtain loc selector where f: "found = (loc, selector)" by (cases found)
    obtain q calls3 where ps: "probe_state B loc calls2 = (q, calls3)"
      by (cases "probe_state B loc calls2")
    obtain ext2 where ext2: "calls3 = calls2 @ ext2" "\<forall>c \<in> set ext2. \<not> is_fallback_call c"
      using probe_state_calls[of B loc calls2] ps by auto
    have "snd (snd (compute_attributes B n snapshot calls)) = calls3"
      using g Inr f ps
      by (simp add: compute_attributes_cached[OF Some assms] split: sum.splits prod.splits)
    then show ?thesis
      using ext ext2 by auto
  qed
qed

lemma compute_attributes_cached_bundle:
  assumes "cda_selectors (computed_attributes n) = Some s"
    and "fst (compute_attributes B n snapshot calls) = Inr r"
  shows "rl_selector r = s\<lparr>playwright_selector := playwright_selector (rl_selector r)\<rparr>"
proof (cases "node_id n")
  case None
  then show ?thesis using assms(2) by (simp add: compute_attributes_def)
next
  case (Some ident)
  show ?thesis
    using assms(2)
    by (auto simp: compute_attributes_cached[OF Some assms(1)]
          split: sum.splits prod.splits if_splits)
qed

lemma example_get_valid_locator:
  "get_valid_locator example_browser example_selectors [] =
     (Inr (Locator ''ad'' ''#submit'', ''#submit''),
      [Count ''main'' ''internal:role=button'', Count ''ad'' ''internal:role=button'',
       Count ''main'' ''#submit'', Count ''ad'' ''#submit''])"
  by (simp add: example_browser_def example_selectors_def example_counts_def selectors_def
        get_valid_locator_def)

lemma example_probe_state:
  "probe_state example_browser loc calls =
     (Inr (False, None, True, True), calls @ [IsEditable loc, IsVisible loc, IsEnabled loc])"
  by (simp add: probe_state_def example_browser_def)

lemma example_resolution:
  "compute_attributes example_browser cached_button example_snapshot [] =
     (Inr \<lparr>rl_role = NodeRole ''button'', rl_is_editable = False, rl_input_type = None,
           rl_selector = example_selectors\<lparr>playwright_selector := Some ''#submit''\<rparr>\<rparr>,
      cached_button,
      [Count ''main'' ''internal:role=button'', Count ''ad'' ''internal:role=button'',
       Count ''main'' ''#submit'', Count ''ad'' ''#submit'',
       IsEditable (Locator ''ad'' ''#submit''), IsVisible (Locator ''ad'' ''#submit''),
       IsEnabled (Locator ''ad'' ''#submit'')])"
proof -
  have r: "node_role cached_button = NodeRole ''button''"
    by (simp add: cached_button_def set_selectors_def button_node_eval new_DomNode_def classify_spec)
  show ?thesis
    unfolding compute_attributes_cached[OF cached_button_fields] example_get_valid_locator
    by (simp add: example_probe_state r example_selectors_def)
qed

lemma button_node_uncached:
  "node_id button_node = Some ''B1''" "cda_selectors (computed_attributes button_node) = None"
  by (simp_all add: button_node_eval new_DomNode_def default_computed_def)

lemma example_fill:
  "fill_node_selectors example_browser button_node example_snapshot [] =
     (Inr (), set_selectors button_node (example_selectors\<lparr>notte_selector := []\<rparr>),
      [GetLocatorForNodeId ''B1'', GetHtmlSelector (Locator ''main'' ''aria-ref=B1'')])"
  by (simp add: fill_node_selectors_def button_node_uncached example_browser_def
        example_html_selectors_def example_selectors_def)

lemma to_interaction_node_id: "to_interaction_node E n = Inr m \<Longrightarrow> node_id m = node_id n"
  by (auto simp: to_interaction_node_def new_InteractionDomNode_def new_DomNode_def split: if_splits)

lemma find_children_absent:
  assumes "\<And>c. c \<in> set cs \<Longrightarrow> find_node E c ident = Inr None"
  shows "find_children E cs ident = Inr None"
  using assms by (induction cs) simp_all

lemma find_node_absent:
  "(\<forall>x \<in> set (flatten E n False). node_id x \<noteq> Some ident) \<Longrightarrow> find_node E n ident = Inr None"
proof (induction n)
  case (DomNodeObj i t r tx cs a ca sids)
  have root: "i \<noteq> Some ident"
    using DomNodeObj.prems by (simp add: flatten_all)
  have "find_children E cs ident = Inr None"
  proof (rule find_children_absent)
    fix c assume c: "c \<in> set cs"
    then have "\<forall>x \<in> set (flatten E c False). node_id x \<noteq> Some ident"
      using DomNodeObj.prems by (auto simp: flatten_all)
    with c show "find_node E c ident = Inr None"
      by (rule DomNodeObj.IH)
  qed
  with root show ?case by simp
qed

lemma find_children_found:
  assumes "\<And>c m. c \<in> set cs \<Longrightarrow> find_node E c ident = Inr (Some m) \<Longrightarrow> node_id m = Some ident"
    and "find_children E cs ident = Inr (Some m)"
  shows "node_id m = Some ident"
  using assms
proof (induction cs)
  case Nil
  then show ?case by simp
next
  case (Cons c cs)
  show ?case
  proof (cases "find_node E c ident")
    case (Inl e)
    then show ?thesis using Cons.prems(2) by simp
  next
    case (Inr found)
    show ?thesis
    proof (cases found)
      case None
      then have "find_children E cs ident = Inr (Some m)"
        using Cons.prems(2) Inr by simp
      moreover have "\<And>k m. k \<in> set cs \<Longrightarrow> find_node E k ident = Inr (Some m) \<Longrightarrow> node_id m = Some ident"
      proof -
        fix k m assume "k \<in> set cs" "find_node E k ident = Inr (Some m)"
        then show "node_id m = Some ident"
          using Cons.prems(1)[of k m] by simp
      qed
      ultimately show ?thesis
        using Cons.IH by blast
    next
      case (Some k)
      then have "k = m" using Cons.prems(2) Inr by simp
      then show ?thesis
        using Cons.prems(1)[of c m] Inr Some by simp
    qed
  qed
qed

lemma find_node_found:
  "find_node E n ident = Inr (Some m) \<Longrightarrow> node_id m = Some ident"
proof (induction n arbitrary: m)
  case (DomNodeObj i t r tx cs a ca sids)
  show ?case
  proof (cases "i = Some ident")
    case True
    then obtain k where "to_interaction_node E (DomNodeObj i t r tx cs a ca sids) = Inr k" "k = m"
      using DomNodeObj.prems by (auto split: sum.splits)
    then show ?thesis
      using to_interaction_node_id[of E "DomNodeObj i t r tx cs a ca sids" m] True by simp
  next
    case False
    then have "find_children E cs ident = Inr (Some m)"
      using DomNodeObj.prems by simp
    then show ?thesis
      using find_children_found[of cs E ident m] DomNodeObj.IH by blast
  qed
qed

lemma spec_tree_eval:
  "from_a11y_node spec_roles spec_payload [] =
     new_DomNode spec_roles None OTHER (NodeRole ''WebArea'') []
       [new_DomNode spec_roles (Some ''B1'') INTERACTION (NodeRole ''button'') ''Submit'' []
          (Some no_attributes) default_computed]
       (Some no_attributes) default_computed"
  unfolding spec_payload_def
  by (simp add: from_leaf classify_spec category_spec Let_def attributes_from_a11y_node_def
        get_bool_def no_attributes_def default_computed_def)

lemma spec_tree_ids:
  "map node_id (flatten spec_roles (from_a11y_node spec_roles spec_payload []) False) = [None, Some ''B1'']"
  unfolding spec_tree_eval by (simp add: new_DomNode_def flatten_all)

lemma spec_tree_find_missing:
  "find_node spec_roles (from_a11y_node spec_roles spec_payload []) ''missing'' = Inr None"
  unfolding spec_tree_eval by (simp add: new_DomNode_def)

lemma spec_tree_find_button:
  "find_node spec_roles (from_a11y_node spec_roles spec_payload []) ''B1'' = Inr (Some button_node)"
  unfolding spec_tree_eval button_node_eval
  by (simp add: new_DomNode_def to_interaction_node_def new_InteractionDomNode_def classify_spec)

lemma second_of_three:
  assumes sel: "selectors sels = [s1, s2, s3]"
    and zero: "\<forall>f \<in> set (frames B). locator_count B f s1 = Returns 0"
    and one: "\<exists>f \<in> set (frames B). locator_count B f s2 = Returns 1"
  shows "\<exists>f \<in> set (frames B). \<exists>early.
           set early \<subseteq> set (List.product [s1, s2] (frames B))
           \<and> get_valid_locator B sels calls =
               (Inr (Locator f s2, s2), calls @ map count_call early @ [count_call (s2, f)])"
proof -
  let ?Q = "\<lambda>q. \<not> unique_match B q"
  let ?early = "map (Pair s1) (frames B) @ map (Pair s2) (frames B)"
  have order: "probe_order B sels = ?early @ map (Pair s3) (frames B)"
    using sel by (simp add: probe_order_def)
  have first: "\<forall>x \<in> set (map (Pair s1) (frames B)). \<not> unique_match B x"
    using zero by (auto simp: unique_match_def)
  obtain f0 where f0: "f0 \<in> set (frames B)" "locator_count B f0 s2 = Returns 1"
    using one by blast
  have "(s2, f0) \<in> set ?early" "unique_match B (s2, f0)"
    using f0 by (simp_all add: unique_match_def)
  then have second: "\<not> (\<forall>x \<in> set ?early. ?Q x)"
    by blast
  have "List.find (unique_match B) (map (Pair s1) (frames B)) = None"
    using first by (simp add: find_None_iff)
  moreover obtain p where p: "List.find (unique_match B) (map (Pair s2) (frames B)) = Some p"
    using f0 by (cases "List.find (unique_match B) (map (Pair s2) (frames B))")
      (auto simp: find_None_iff unique_match_def)
  ultimately have found: "List.find (unique_match B) (probe_order B sels) = Some p"
    by (simp add: order find_append)
  have "p \<in> set (map (Pair s2) (frames B))"
    using p by (auto simp: find_Some_iff)
  then obtain f where f: "f \<in> set (frames B)" "p = (s2, f)" by auto
  have tw: "takeWhile ?Q (probe_order B sels) = takeWhile ?Q ?early"
    using second unfolding order by (subst takeWhile_append_if) auto
  have res: "get_valid_locator B sels calls =
      (Inr (Locator f s2, s2), calls @ map count_call (takeWhile ?Q ?early) @ [count_call (s2, f)])"
    using found f tw by (simp add: get_valid_locator_char)
  have "set (takeWhile ?Q ?early) \<subseteq> set ?early"
    using set_takeWhileD by fastforce
  then have sub: "set (takeWhile ?Q ?early) \<subseteq> set (List.product [s1, s2] (frames B))"
    by simp
  show ?thesis
    using f(1) sub res by blast
qed

lemma probe_state_returns:
  "fst (probe_state B loc calls) = Inr (editable, input_type, vis, en) \<longleftrightarrow>
     is_editable B loc = Returns editable
     \<and> (if editable then get_attribute_type B loc = Returns input_type else input_type = None)
     \<and> is_visible B loc = Returns vis
     \<and> is_enabled B loc = Returns en"
  by (auto simp: probe_state_def Let_def split: driver_result.splits)

lemma probe_state_raises:
  "(\<exists>e. fst (probe_state B loc calls) = Inl e) \<longleftrightarrow>
     is_editable B loc = Raises
     \<or> (is_editable B loc = Returns True \<and> get_attribute_type B loc = Raises)
     \<or> is_visible B loc = Raises
     \<or> is_enabled B loc = Raises"
  by (auto simp: probe_state_def Let_def split: driver_result.splits)

lemma accepted_pair_none:
  "accepted_pair B sels = None \<longleftrightarrow>
     (\<forall>s \<in> set (selectors sels). \<forall>f \<in> set (frames B). locator_count B f s \<noteq> Returns 1)"
  by (auto simp: accepted_pair_def probe_order_def find_None_iff unique_match_def)

lemma disabled_accepted:
  "List.find (unique_match disabled_browser) (probe_order disabled_browser example_selectors) =
     Some (''#submit'', ''ad'')"
  by (simp add: probe_order_def selectors_def example_selectors_def disabled_browser_def
        example_browser_def unique_match_def example_counts_def)

lemma raising_accepted:
  "List.find (unique_match raising_browser) (probe_order raising_browser example_selectors) =
     Some (''#submit'', ''ad'')"
  by (simp add: probe_order_def selectors_def example_selectors_def raising_browser_def
        example_browser_def unique_match_def example_counts_def)

lemma filtered_children_all:
  assumes "\<And>c. c \<in> set cs \<Longrightarrow> subtree_filter_inner E ft c = Some c"
  shows "filtered_children E ft cs = cs"
  using assms by (induction cs) simp_all

lemma subtree_filter_inner_keeps_all:
  "post_init_ok E n \<Longrightarrow>
   (\<forall>x \<in> set (flatten E n False).
      ft x \<and> \<not> (node_id x = None \<and> children x = [] \<and> strip (node_text x) = [])) \<Longrightarrow>
   subtree_filter_inner E ft n = Some n"
proof (induction n)
  case (DomNodeObj i t r tx cs a ca sids)
  let ?n = "DomNodeObj i t r tx cs a ca sids"
  have root: "ft ?n" "\<not> (i = None \<and> cs = [] \<and> strip tx = [])"
    using DomNodeObj.prems(2) by (auto simp: flatten_all)
  have kids: "filtered_children E ft cs = cs"
  proof (rule filtered_children_all)
    fix c assume c: "c \<in> set cs"
    have "post_init_ok E c"
      using DomNodeObj.prems(1) c by simp
    moreover have "\<forall>x \<in> set (flatten E c False).
        ft x \<and> \<not> (node_id x = None \<and> children x = [] \<and> strip (node_text x) = [])"
      using DomNodeObj.prems(2) c by (auto simp: flatten_all)
    ultimately show "subtree_filter_inner E ft c = Some c"
      using DomNodeObj.IH[OF c] by blast
  qed
  have same: "new_DomNode E i t r tx cs a ca = ?n"
    using DomNodeObj.prems(1) by (simp add: new_DomNode_def)
  show ?case
    using root kids same by (auto simp: Let_def)
qed

lemma custom_node_ok:
  "post_init_ok spec_roles custom_node"
  "flatten spec_roles custom_node False = [custom_node]"
  "node_role custom_node = Str ''custom''"
  "node_id custom_node = Some ''X1''"
  by (simp_all add: custom_node_def new_DomNode_def classify_spec flatten_def)

section \<open>Candidate probing\<close>

text \<open>
  Claim C3. \<^verbatim>\<open>get_valid_locator\<close> probes the pairs of a candidate selector and a frame in
  the fixed order: the playwright selector of the bundle when it has one, then its css
  selector, then its xpath selector, and for each selector the frames in page order. It
  accepts the first pair whose count is exactly one and probes nothing after it: the calls
  made are exactly the pairs before the accepted one, then the accepted one; without an
  accepted pair every pair is probed and the unique-locator failure is raised. In
  particular, when the playwright selector counts zero in every frame and the css selector
  counts one in some frame, the css selector is returned and the xpath selector is never
  probed: every probe made is a probe of one of the first two candidates, and no probe
  names the xpath selector when it differs from the other two.
\<close>

theorem get_valid_locator_first_unique_pair:
  "get_valid_locator B sels calls =
     (case List.find (unique_match B) (probe_order B sels) of
        None \<Rightarrow> (Inl (FailedUniqueLocatorResolutionError sels),
                 calls @ map count_call (probe_order B sels))
      | Some p \<Rightarrow> (Inr (Locator (snd p) (fst p), fst p),
                   calls @ map count_call (takeWhile (\<lambda>q. \<not> unique_match B q) (probe_order B sels))
                     @ [count_call p]))
   \<and> probe_order B sels =
       List.product
         ((case playwright_selector sels of None \<Rightarrow> [] | Some p \<Rightarrow> [p])
            @ [css_selector sels, xpath_selector sels])
         (frames B)
   \<and> (playwright_selector sels = Some s1
        \<and> (\<forall>f \<in> set (frames B). locator_count B f s1 = Returns 0)
        \<and> (\<exists>f \<in> set (frames B). locator_count B f (css_selector sels) = Returns 1)
      \<longrightarrow> (\<exists>f \<in> set (frames B).
             fst (get_valid_locator B sels calls) = Inr (Locator f (css_selector sels), css_selector sels))
          \<and> set (drop (length calls) (snd (get_valid_locator B sels calls)))
                \<subseteq> count_call ` set (List.product [s1, css_selector sels] (frames B))
          \<and> (xpath_selector sels \<noteq> s1 \<and> xpath_selector sels \<noteq> css_selector sels \<longrightarrow>
               (\<forall>f. Count f (xpath_selector sels)
                      \<notin> set (drop (length calls) (snd (get_valid_locator B sels calls))))))"
proof (intro conjI)
  show "get_valid_locator B sels calls =
     (case List.find (unique_match B) (probe_order B sels) of
        None \<Rightarrow> (Inl (FailedUniqueLocatorResolutionError sels),
                 calls @ map count_call (probe_order B sels))
      | Some p \<Rightarrow> (Inr (Locator (snd p) (fst p), fst p),
                   calls @ map count_call (takeWhile (\<lambda>q. \<not> unique_match B q) (probe_order B sels))
                     @ [count_call p]))"
    by (rule get_valid_locator_char)
  show "probe_order B sels =
       List.product
         ((case playwright_selector sels of None \<Rightarrow> [] | Some p \<Rightarrow> [p])
            @ [css_selector sels, xpath_selector sels])
         (frames B)"
    by (simp add: probe_order_def selectors_def)
  let ?s2 = "css_selector sels" and ?s3 = "xpath_selector sels"
  show "playwright_selector sels = Some s1
        \<and> (\<forall>f \<in> set (frames B). locator_count B f s1 = Returns 0)
        \<and> (\<exists>f \<in> set (frames B). locator_count B f ?s2 = Returns 1)
      \<longrightarrow> (\<exists>f \<in> set (frames B). fst (get_valid_locator B sels calls) = Inr (Locator f ?s2, ?s2))
          \<and> set (drop (length calls) (snd (get_valid_locator B sels calls)))
                \<subseteq> count_call ` set (List.product [s1, ?s2] (frames B))
          \<and> (?s3 \<noteq> s1 \<and> ?s3 \<noteq> ?s2 \<longrightarrow>
               (\<forall>f. Count f ?s3 \<notin> set (drop (length calls) (snd (get_valid_locator B sels calls)))))"
  proof
    assume h: "playwright_selector sels = Some s1
        \<and> (\<forall>f \<in> set (frames B). locator_count B f s1 = Returns 0)
        \<and> (\<exists>f \<in> set (frames B). locator_count B f ?s2 = Returns 1)"
    then have three: "selectors sels = [s1, ?s2, ?s3]"
      by (simp add: selectors_def)
    obtain f early where f: "f \<in> set (frames B)"
      and early: "set early \<subseteq> set (List.product [s1, ?s2] (frames B))"
      and res: "get_valid_locator B sels calls =
               (Inr (Locator f ?s2, ?s2), calls @ map count_call early @ [count_call (?s2, f)])"
      using second_of_three[OF three, of B calls] h by blast
    have made: "set (drop (length calls) (snd (get_valid_locator B sels calls))) =
        count_call ` set early \<union> {count_call (?s2, f)}"
      by (simp add: res)
    have "(?s2, f) \<in> set (List.product [s1, ?s2] (frames B))"
      using f by simp
    then have within: "set (drop (length calls) (snd (get_valid_locator B sels calls)))
                \<subseteq> count_call ` set (List.product [s1, ?s2] (frames B))"
      unfolding made using early by blast
    have third: "?s3 \<noteq> s1 \<and> ?s3 \<noteq> ?s2 \<longrightarrow>
               (\<forall>f. Count f ?s3 \<notin> set (drop (length calls) (snd (get_valid_locator B sels calls))))"
    proof (intro impI allI)
      fix g assume d: "?s3 \<noteq> s1 \<and> ?s3 \<noteq> ?s2"
      then have "Count g ?s3 \<notin> count_call ` set (List.product [s1, ?s2] (frames B))"
        by (auto simp: count_call_def)
      then show "Count g ?s3 \<notin> set (drop (length calls) (snd (get_valid_locator B sels calls)))"
        using within by blast
    qed
    show "(\<exists>f \<in> set (frames B). fst (get_valid_locator B sels calls) = Inr (Locator f ?s2, ?s2))
          \<and> set (drop (length calls) (snd (get_valid_locator B sels calls)))
                \<subseteq> count_call ` set (List.product [s1, ?s2] (frames B))
          \<and> (?s3 \<noteq> s1 \<and> ?s3 \<noteq> ?s2 \<longrightarrow>
               (\<forall>f. Count f ?s3 \<notin> set (drop (length calls) (snd (get_valid_locator B sels calls)))))"
      using f res within third by auto
  qed
qed

theorem get_valid_locator_first_unique_pair_witness:
  "playwright_selector example_selectors = Some ''internal:role=button''
   \<and> css_selector example_selectors = ''#submit''
   \<and> xpath_selector example_selectors = ''//button[1]''
   \<and> frames example_browser = [''main'', ''ad'']
   \<and> locator_count example_browser ''main'' ''internal:role=button'' = Returns 0
   \<and> locator_count example_browser ''ad'' ''internal:role=button'' = Returns 0
   \<and> locator_count example_browser ''ad'' ''#submit'' = Returns 1
   \<and> probe_order example_browser example_selectors =
       [(''internal:role=button'', ''main''), (''internal:role=button'', ''ad''),
        (''#submit'', ''main''), (''#submit'', ''ad''),
        (''//button[1]'', ''main''), (''//button[1]'', ''ad'')]
   \<and> get_valid_locator example_browser example_selectors [] =
       (Inr (Locator ''ad'' ''#submit'', ''#submit''),
        [Count ''main'' ''internal:role=button'', Count ''ad'' ''internal:role=button'',
         Count ''main'' ''#submit'', Count ''ad'' ''#submit''])"
  using get_valid_locator_first_unique_pair
    [of example_browser example_selectors "[]" "''internal:role=button''"]
  by (simp add: example_browser_def example_selectors_def example_counts_def
        unique_match_def count_call_def)

section \<open>The candidate list is never empty\<close>

text \<open>
  Claim C10. The candidate list of every \<^verbatim>\<open>NodeSelectors\<close> bundle holds the css and the
  xpath selector, preceded by the playwright selector when there is one; it has at least
  two entries, so \<^verbatim>\<open>get_valid_locator\<close> never fails with the check "No selectors found".
\<close>

theorem selectors_nonempty:
  "selectors s = (case playwright_selector s of
                    None \<Rightarrow> [css_selector s, xpath_selector s]
                  | Some p \<Rightarrow> [p, css_selector s, xpath_selector s])
   \<and> 2 \<le> length (selectors s)
   \<and> selectors s \<noteq> []
   \<and> (\<forall>u. fst (get_valid_locator B s calls) \<noteq> Inl (InvalidInternalCheckError NoSelectorsFound u))"
  by (auto simp: selectors_def get_valid_locator_def split: option.splits prod.splits)

theorem selectors_nonempty_witness:
  "selectors example_selectors = [''internal:role=button'', ''#submit'', ''//button[1]'']
   \<and> fst (get_valid_locator example_browser example_selectors []) \<noteq>
       Inl (InvalidInternalCheckError NoSelectorsFound (Some ''unknown url''))"
  using selectors_nonempty [of example_selectors example_browser "[]"]
  by (simp add: example_selectors_def)

section \<open>Text aggregation\<close>

text \<open>
  Claim C1. The claim has \<^verbatim>\<open>inner_text\<close> leave out a child exactly when the child is
  explicitly hidden, explicitly not visible or explicitly not enabled. The source's test on
  \<^verbatim>\<open>hidden\<close> is the same "set and false" test as the one on \<^verbatim>\<open>visible\<close> and \<^verbatim>\<open>enabled\<close>:
  under a non-text parent, the text of a child with \<^verbatim>\<open>hidden=True\<close> is kept and the text of
  a child with \<^verbatim>\<open>hidden=False\<close> is left out, while a child with no flag set is kept.
\<close>

theorem inner_text_hidden_flag_inverted:
  "inner_text hidden_example = ''secret plain''"
  by (simp add: hidden_example_def text_child_def new_DomNode_def classify_role_def join_def
        is_not_None_and_not_def)

section \<open>Coercion to an interaction node\<close>

text \<open>
  Claim C5, as stated, at a node of kind Interaction with an id and one child: the coercion
  succeeds, and the result has no children.
\<close>

theorem to_interaction_node_drops_children:
  "node_type interaction_with_child = INTERACTION
   \<and> node_id interaction_with_child = Some ''B1''
   \<and> children interaction_with_child = [text_child ''Submit'' None]
   \<and> to_interaction_node spec_roles interaction_with_child =
       Inr (new_DomNode spec_roles (Some ''B1'') INTERACTION (NodeRole ''button'') ''Submit'' [] None
              default_computed)"
  by (simp add: interaction_with_child_def to_interaction_node_def new_InteractionDomNode_def
        new_DomNode_def classify_role_def)

text \<open>
  Claim C5, amended. \<^verbatim>\<open>to_interaction_node\<close> succeeds if and only if the kind of the node is
  Interaction and its id is present; the children of the node play no part, the result
  always has the empty list of children, the id, text and attributes of the node and the
  kind Interaction. Every failure is an \<^verbatim>\<open>InvalidInternalCheckError\<close>.
\<close>

theorem to_interaction_node_succeeds_iff:
  "((\<exists>m. to_interaction_node E n = Inr m) \<longleftrightarrow> node_type n = INTERACTION \<and> node_id n \<noteq> None)
   \<and> (to_interaction_node E n = Inr m \<longrightarrow>
        children m = [] \<and> node_id m = node_id n \<and> node_id m \<noteq> None \<and> node_type m = INTERACTION
        \<and> node_text m = node_text n \<and> attributes m = attributes n
        \<and> computed_attributes m = computed_attributes n)
   \<and> ((\<exists>e. to_interaction_node E n = Inl e) \<longrightarrow>
        (\<exists>c. to_interaction_node E n = Inl (InvalidInternalCheckError c (get_url n))))"
  by (auto simp: to_interaction_node_def new_InteractionDomNode_def new_DomNode_def get_url_def
        split: if_splits)

theorem to_interaction_node_succeeds_iff_witness:
  "node_type interaction_with_child = INTERACTION
   \<and> node_id interaction_with_child = Some ''B1''
   \<and> to_interaction_node spec_roles interaction_with_child =
       Inr (new_DomNode spec_roles (Some ''B1'') INTERACTION (NodeRole ''button'') ''Submit'' [] None
              default_computed)
   \<and> children (new_DomNode spec_roles (Some ''B1'') INTERACTION (NodeRole ''button'') ''Submit'' [] None
              default_computed) = []
   \<and> to_interaction_node spec_roles (text_child ''plain'' None) =
       Inl (InvalidInternalCheckError (MustBeInteractionNode TEXT None) None)"
  using to_interaction_node_succeeds_iff [of spec_roles interaction_with_child
     "new_DomNode spec_roles (Some ''B1'') INTERACTION (NodeRole ''button'') ''Submit'' [] None default_computed"]
    to_interaction_node_succeeds_iff [of spec_roles "text_child ''plain'' None"]
  by (simp add: interaction_with_child_def to_interaction_node_def new_InteractionDomNode_def
        new_DomNode_def classify_role_def text_child_def get_url_def get_url_of_def default_computed_def)

section \<open>Derived ids\<close>

text \<open>
  Claim C6. In the tree built from an accessibility payload, the \<^verbatim>\<open>subtree_ids\<close> of every
  node are its own id, when present, followed by the \<^verbatim>\<open>subtree_ids\<close> of its children (as
  sets: the union); at the root they are exactly the ids present anywhere in the tree, and
  they are the ids of the payload in pre-order, so they have no duplicates when the ids of
  the payload are distinct, whatever the depth.
\<close>

theorem subtree_ids_of_built_tree:
  "(\<forall>n \<in> set (flatten E (from_a11y_node E p sel) False).
       subtree_ids n = (case node_id n of None \<Rightarrow> [] | Some i \<Rightarrow> [i]) @ concat (map subtree_ids (children n))
       \<and> set (subtree_ids n) = set_option (node_id n) \<union> (\<Union>c \<in> set (children n). set (subtree_ids c)))
   \<and> set (subtree_ids (from_a11y_node E p sel)) =
       {i. \<exists>n \<in> set (flatten E (from_a11y_node E p sel) False). node_id n = Some i}
   \<and> subtree_ids (from_a11y_node E p sel) = present_ids E (from_a11y_node E p sel)
   \<and> subtree_ids (from_a11y_node E p sel) = payload_ids p
   \<and> (distinct (payload_ids p) \<longrightarrow> distinct (subtree_ids (from_a11y_node E p sel)))"
proof (intro conjI ballI impI)
  fix n assume n: "n \<in> set (flatten E (from_a11y_node E p sel) False)"
  have ok: "post_init_ok E n"
    using post_init_ok_from_a11y n by (rule post_init_ok_flatten)
  then show loc: "subtree_ids n =
      (case node_id n of None \<Rightarrow> [] | Some i \<Rightarrow> [i]) @ concat (map subtree_ids (children n))"
    by (rule post_init_ok_local)
  show "set (subtree_ids n) = set_option (node_id n) \<union> (\<Union>c \<in> set (children n). set (subtree_ids c))"
    by (subst loc) (auto split: option.splits)
next
  have eq: "subtree_ids (from_a11y_node E p sel) = present_ids E (from_a11y_node E p sel)"
    using post_init_ok_from_a11y by (rule subtree_ids_present)
  show "subtree_ids (from_a11y_node E p sel) = present_ids E (from_a11y_node E p sel)"
    by (rule eq)
  show "set (subtree_ids (from_a11y_node E p sel)) =
       {i. \<exists>n \<in> set (flatten E (from_a11y_node E p sel) False). node_id n = Some i}"
    unfolding eq present_ids_def by (rule set_map_filter_node_id)
  show "subtree_ids (from_a11y_node E p sel) = payload_ids p"
    by (rule subtree_ids_from_a11y)
next
  assume "distinct (payload_ids p)"
  then show "distinct (subtree_ids (from_a11y_node E p sel))"
    by (simp add: subtree_ids_from_a11y)
qed

theorem subtree_ids_of_built_tree_witness:
  "payload_ids nested_payload = [''B1'', ''L1'']
   \<and> distinct (payload_ids nested_payload)
   \<and> subtree_ids (from_a11y_node spec_roles nested_payload []) = [''B1'', ''L1'']
   \<and> present_ids spec_roles (from_a11y_node spec_roles nested_payload []) = [''B1'', ''L1'']"
proof -
  have p: "payload_ids nested_payload = [''B1'', ''L1'']"
    by (simp add: nested_payload_def leaf_payload_def)
  note built = subtree_ids_of_built_tree [of spec_roles nested_payload "[]"]
  note e1 = built[THEN conjunct2, THEN conjunct2, THEN conjunct1, symmetric]
  note e2 = built[THEN conjunct2, THEN conjunct2, THEN conjunct2, THEN conjunct1]
  show ?thesis
    unfolding e1 e2 p by simp
qed

section \<open>Filtering\<close>

text \<open>
  Claim C7, as stated, for the predicate "the node has children" on an interaction node
  with one text child: the first filtering keeps the node and drops its child, the second
  filtering of that result drops the node.
\<close>

theorem subtree_filter_not_idempotent:
  "subtree_filter spec_roles interaction_with_child has_children =
     Some (new_DomNode spec_roles (Some ''B1'') INTERACTION (NodeRole ''button'') ''Submit'' [] None
             default_computed)
   \<and> subtree_filter spec_roles
        (new_DomNode spec_roles (Some ''B1'') INTERACTION (NodeRole ''button'') ''Submit'' [] None
           default_computed) has_children = None"
  by (simp add: interaction_with_child_def text_child_def subtree_filter_def new_DomNode_def
        classify_spec has_children_def Let_def)

text \<open>
  Claim C7, amended. For every constructed tree (each node as \<^verbatim>\<open>__post_init__\<close> leaves it)
  and every predicate whose value on a node depends only on the id, kind, role, text,
  attributes and computed attributes of the node (not on its children, its derived
  \<^verbatim>\<open>subtree_ids\<close>, its parent or the Python class of the object), filtering the result of
  \<^verbatim>\<open>subtree_filter\<close> again with the same predicate gives that same result back.
\<close>

theorem subtree_filter_idempotent:
  "post_init_ok E t \<Longrightarrow> children_insensitive ft \<Longrightarrow> subtree_filter E t ft = Some t' \<Longrightarrow>
   subtree_filter E t' ft = Some t'"
  unfolding subtree_filter_def by (rule subtree_filter_inner_idem)

theorem subtree_filter_idempotent_witness:
  "post_init_ok spec_roles nested_tree
   \<and> children_insensitive (only_roles {''button''})
   \<and> subtree_filter spec_roles nested_tree (only_roles {''button''}) = Some nested_tree_without_button
   \<and> subtree_filter spec_roles nested_tree_without_button (only_roles {''button''}) =
       Some nested_tree_without_button"
proof -
  have ok: "post_init_ok spec_roles nested_tree"
    unfolding nested_tree_def by (rule post_init_ok_from_a11y)
  have ins: "children_insensitive (only_roles {''button''})"
    by (rule only_roles_insensitive)
  show ?thesis
    using ok ins nested_tree_filtered
      subtree_filter_idempotent [OF ok ins nested_tree_filtered]
    by simp
qed

text \<open>
  Claim C8, as stated, for a single node whose role is the unrecognised string "custom" and
  the role set that holds "custom": the role of every node is in the set, yet the node is
  returned and no error is raised.
\<close>

theorem subtree_without_keeps_unrecognised_role:
  "get_role_str custom_node = ''custom''
   \<and> flatten spec_roles custom_node False = [custom_node]
   \<and> subtree_without spec_roles custom_node {''custom''} = Inr custom_node"
  by (simp add: custom_node_def new_DomNode_def classify_spec get_role_str_def
        flatten_def subtree_without_def subtree_filter_def only_roles_def Let_def)

text \<open>
  Claim C8, amended. In a constructed tree, \<^verbatim>\<open>subtree_without\<close> removes every node whose
  role is a recognised \<^verbatim>\<open>NodeRole\<close> with its value in the given set. The role test rejects
  exactly those roles: a node whose role is an unrecognised plain string always passes it,
  also when that string is in the set, and a tree in which every node passes it and no node
  is a dead branch (no id, no children, blank text) is returned whole. The function fails
  with \<^verbatim>\<open>NodeFilteringResultsInEmptyGraph\<close> exactly when the filtering leaves nothing, in
  particular when the role of the root, or of every node, is a recognised role in the set;
  it never returns an empty result.
\<close>

theorem subtree_without_removes_roles:
  "(post_init_ok E n \<and> subtree_without E n roles = Inr m \<longrightarrow>
      (\<forall>x \<in> set (flatten E m False). \<forall>v. node_role x = NodeRole v \<longrightarrow> v \<notin> roles))
   \<and> (only_roles roles x \<longleftrightarrow> (\<forall>v. node_role x = NodeRole v \<longrightarrow> v \<notin> roles))
   \<and> ((\<exists>s. node_role x = Str s) \<longrightarrow> only_roles roles x)
   \<and> (post_init_ok E n
        \<and> (\<forall>x \<in> set (flatten E n False).
              ((\<exists>s. node_role x = Str s) \<or> (\<exists>v. node_role x = NodeRole v \<and> v \<notin> roles))
              \<and> \<not> (node_id x = None \<and> children x = [] \<and> strip (node_text x) = []))
      \<longrightarrow> subtree_without E n roles = Inr n)
   \<and> ((\<exists>v. node_role n = NodeRole v \<and> v \<in> roles) \<longrightarrow>
        subtree_without E n roles = Inl (NodeFilteringResultsInEmptyGraph (get_url n) roles))
   \<and> ((\<forall>x \<in> set (flatten E n False). \<exists>v. node_role x = NodeRole v \<and> v \<in> roles) \<longrightarrow>
        subtree_without E n roles = Inl (NodeFilteringResultsInEmptyGraph (get_url n) roles))
   \<and> (subtree_filter E n (only_roles roles) = None \<longleftrightarrow>
        subtree_without E n roles = Inl (NodeFilteringResultsInEmptyGraph (get_url n) roles))
   \<and> ((\<exists>e. subtree_without E n roles = Inl e) \<longrightarrow> subtree_filter E n (only_roles roles) = None)"
proof (intro conjI)
  show "post_init_ok E n \<and> subtree_without E n roles = Inr m \<longrightarrow>
      (\<forall>x \<in> set (flatten E m False). \<forall>v. node_role x = NodeRole v \<longrightarrow> v \<notin> roles)"
  proof (intro impI ballI allI)
    fix x v
    assume a: "post_init_ok E n \<and> subtree_without E n roles = Inr m"
      and x: "x \<in> set (flatten E m False)" and v: "node_role x = NodeRole v"
    from a have "subtree_filter_inner E (only_roles roles) n = Some m"
      by (simp add: subtree_without_def subtree_filter_def split: option.splits)
    with a x have "only_roles roles x"
      using subtree_filter_inner_all[OF only_roles_insensitive] by blast
    with v show "v \<notin> roles"
      by (simp add: only_roles_def)
  qed
  show "only_roles roles x \<longleftrightarrow> (\<forall>v. node_role x = NodeRole v \<longrightarrow> v \<notin> roles)"
    by (simp add: only_roles_def split: node_role_or_str.splits)
  show "(\<exists>s. node_role x = Str s) \<longrightarrow> only_roles roles x"
    by (auto simp: only_roles_def)
  show "post_init_ok E n
        \<and> (\<forall>x \<in> set (flatten E n False).
              ((\<exists>s. node_role x = Str s) \<or> (\<exists>v. node_role x = NodeRole v \<and> v \<notin> roles))
              \<and> \<not> (node_id x = None \<and> children x = [] \<and> strip (node_text x) = []))
      \<longrightarrow> subtree_without E n roles = Inr n"
  proof
    assume a: "post_init_ok E n
        \<and> (\<forall>x \<in> set (flatten E n False).
              ((\<exists>s. node_role x = Str s) \<or> (\<exists>v. node_role x = NodeRole v \<and> v \<notin> roles))
              \<and> \<not> (node_id x = None \<and> children x = [] \<and> strip (node_text x) = []))"
    then have "\<forall>x \<in> set (flatten E n False).
        only_roles roles x \<and> \<not> (node_id x = None \<and> children x = [] \<and> strip (node_text x) = [])"
      by (auto simp: only_roles_def)
    then have "subtree_filter_inner E (only_roles roles) n = Some n"
      using a subtree_filter_inner_keeps_all[of E n "only_roles roles"] by blast
    then show "subtree_without E n roles = Inr n"
      by (simp add: subtree_without_def subtree_filter_def)
  qed
  show "(\<exists>v. node_role n = NodeRole v \<and> v \<in> roles) \<longrightarrow>
        subtree_without E n roles = Inl (NodeFilteringResultsInEmptyGraph (get_url n) roles)"
  proof
    assume "\<exists>v. node_role n = NodeRole v \<and> v \<in> roles"
    then have "\<not> only_roles roles n"
      by (auto simp: only_roles_def)
    then show "subtree_without E n roles = Inl (NodeFilteringResultsInEmptyGraph (get_url n) roles)"
      by (simp add: subtree_without_def subtree_filter_root_rejected)
  qed
  show "(\<forall>x \<in> set (flatten E n False). \<exists>v. node_role x = NodeRole v \<and> v \<in> roles) \<longrightarrow>
        subtree_without E n roles = Inl (NodeFilteringResultsInEmptyGraph (get_url n) roles)"
  proof
    assume "\<forall>x \<in> set (flatten E n False). \<exists>v. node_role x = NodeRole v \<and> v \<in> roles"
    then have "\<exists>v. node_role n = NodeRole v \<and> v \<in> roles"
      using root_in_flatten by blast
    then have "\<not> only_roles roles n"
      by (auto simp: only_roles_def)
    then show "subtree_without E n roles = Inl (NodeFilteringResultsInEmptyGraph (get_url n) roles)"
      by (simp add: subtree_without_def subtree_filter_root_rejected)
  qed
  show "subtree_filter E n (only_roles roles) = None \<longleftrightarrow>
        subtree_without E n roles = Inl (NodeFilteringResultsInEmptyGraph (get_url n) roles)"
    by (simp add: subtree_without_def split: option.splits)
  show "(\<exists>e. subtree_without E n roles = Inl e) \<longrightarrow> subtree_filter E n (only_roles roles) = None"
    by (auto simp: subtree_without_def split: option.splits)
qed

theorem subtree_without_removes_roles_witness:
  "post_init_ok spec_roles nested_tree
   \<and> subtree_without spec_roles nested_tree {''button''} = Inr nested_tree_without_button
   \<and> node_role button_node = NodeRole ''button''
   \<and> subtree_without spec_roles button_node {''button''} =
       Inl (NodeFilteringResultsInEmptyGraph None {''button''})
   \<and> post_init_ok spec_roles custom_node
   \<and> flatten spec_roles custom_node False = [custom_node]
   \<and> node_role custom_node = Str ''custom''
   \<and> node_id custom_node = Some ''X1''
   \<and> only_roles {''custom''} custom_node
   \<and> subtree_without spec_roles custom_node {''custom''} = Inr custom_node"
proof -
  have ok: "post_init_ok spec_roles nested_tree"
    unfolding nested_tree_def by (rule post_init_ok_from_a11y)
  have w: "subtree_without spec_roles nested_tree {''button''} = Inr nested_tree_without_button"
    using nested_tree_filtered by (simp add: subtree_without_def)
  have r: "node_role button_node = NodeRole ''button''"
    by (simp add: button_node_eval new_DomNode_def classify_spec)
  have u: "get_url button_node = None"
    by (simp add: button_node_eval new_DomNode_def get_url_def get_url_of_def default_computed_def)
  note t1 = subtree_without_removes_roles [of spec_roles button_node "{''button''}"]
  note t2 = subtree_without_removes_roles [of spec_roles nested_tree "{''button''}" nested_tree_without_button]
  note t3 = subtree_without_removes_roles [of spec_roles custom_node "{''custom''}" custom_node custom_node]
  have e: "subtree_without spec_roles button_node {''button''} =
       Inl (NodeFilteringResultsInEmptyGraph None {''button''})"
    using t1 r u by simp
  have t: "only_roles {''custom''} custom_node"
    using t3[THEN conjunct2, THEN conjunct2, THEN conjunct1] custom_node_ok(3) by simp
  have k: "subtree_without spec_roles custom_node {''custom''} = Inr custom_node"
    using t3[THEN conjunct2, THEN conjunct2, THEN conjunct2, THEN conjunct1] custom_node_ok
    by simp
  show ?thesis
    using ok w r e t k custom_node_ok t2 by simp
qed

section \<open>Lookup failures of the pipe\<close>

text \<open>
  Claim C2, as stated, for an action id that no node of the graph carries: \<^verbatim>\<open>forward\<close> fails
  with an \<^verbatim>\<open>InvalidInternalCheckError\<close>, the class that the id-mismatch check raises as well.
\<close>

theorem forward_absent_id_same_class:
  "forward spec_roles example_browser (example_action ''missing'') ([] :: string list) example_context [] =
     (Inl (InvalidInternalCheckError (NodeNotFoundInGraph ''missing'') (Some ''https://example.org'')), [])
   \<and> error_class (InvalidInternalCheckError (NodeNotFoundInGraph ''missing'')
         (Some ''https://example.org'')) = ''InvalidInternalCheckError''
   \<and> forward_found example_browser (example_action ''missing'') ([] :: string list) example_context
        (Some button_node) [] =
     (Inl (InvalidInternalCheckError (ResolvedIdMismatch (Some ''B1'') ''missing'')
            (Some ''https://example.org'')), [])
   \<and> error_class (InvalidInternalCheckError (ResolvedIdMismatch (Some ''B1'') ''missing'')
         (Some ''https://example.org'')) = ''InvalidInternalCheckError''"
  by (simp add: forward_def forward_found_def example_context_def example_action_def
        example_snapshot_def spec_tree_find_missing button_node_uncached error_class_def)

text \<open>
  Claim C2, amended. When no node of the graph carries the action id, \<^verbatim>\<open>forward\<close> fails with
  an \<^verbatim>\<open>InvalidInternalCheckError\<close> whose check reads "Node with id ... not found in graph";
  when the lookup gives a node whose id disagrees with the request, it fails with an
  \<^verbatim>\<open>InvalidInternalCheckError\<close> whose check reads "Resolved node id ... does not match action
  id ...". The two failures have the same class and differ in their check; the lookup
  itself only ever returns a node with the requested id.
\<close>

theorem forward_lookup_failures:
  "((\<forall>x \<in> set (flatten E (context_node context) False). node_id x \<noteq> Some (action_id act)) \<longrightarrow>
      forward E B act params_values context calls =
        (Inl (InvalidInternalCheckError (NodeNotFoundInGraph (action_id act))
               (Some (metadata_url (context_snapshot context)))), calls))
   \<and> (node_id m \<noteq> Some (action_id act) \<longrightarrow>
        forward_found B act params_values context (Some m) calls =
          (Inl (InvalidInternalCheckError (ResolvedIdMismatch (node_id m) (action_id act))
                 (Some (metadata_url (context_snapshot context)))), calls))
   \<and> (find_node E (context_node context) (action_id act) = Inr (Some m) \<longrightarrow>
        node_id m = Some (action_id act))
   \<and> error_class (InvalidInternalCheckError (NodeNotFoundInGraph (action_id act)) u) =
       error_class (InvalidInternalCheckError (ResolvedIdMismatch (node_id m) (action_id act)) u)
   \<and> NodeNotFoundInGraph (action_id act) \<noteq> ResolvedIdMismatch (node_id m) (action_id act)"
proof (intro conjI impI)
  assume "\<forall>x \<in> set (flatten E (context_node context) False). node_id x \<noteq> Some (action_id act)"
  then have "find_node E (context_node context) (action_id act) = Inr None"
    by (rule find_node_absent)
  then show "forward E B act params_values context calls =
        (Inl (InvalidInternalCheckError (NodeNotFoundInGraph (action_id act))
               (Some (metadata_url (context_snapshot context)))), calls)"
    by (simp add: forward_def forward_found_def)
next
  assume "node_id m \<noteq> Some (action_id act)"
  then show "forward_found B act params_values context (Some m) calls =
          (Inl (InvalidInternalCheckError (ResolvedIdMismatch (node_id m) (action_id act))
                 (Some (metadata_url (context_snapshot context)))), calls)"
    by (simp add: forward_found_def)
next
  assume "find_node E (context_node context) (action_id act) = Inr (Some m)"
  then show "node_id m = Some (action_id act)"
    by (rule find_node_found)
next
  show "error_class (InvalidInternalCheckError (NodeNotFoundInGraph (action_id act)) u) =
       error_class (InvalidInternalCheckError (ResolvedIdMismatch (node_id m) (action_id act)) u)"
    by (simp add: error_class_def)
  show "NodeNotFoundInGraph (action_id act) \<noteq> ResolvedIdMismatch (node_id m) (action_id act)"
    by simp
qed

theorem forward_lookup_failures_witness:
  "map node_id (flatten spec_roles (context_node example_context) False) = [None, Some ''B1'']
   \<and> forward spec_roles example_browser (example_action ''missing'') ([] :: string list) example_context [] =
       (Inl (InvalidInternalCheckError (NodeNotFoundInGraph ''missing'') (Some ''https://example.org'')), [])
   \<and> forward_found example_browser (example_action ''missing'') ([] :: string list) example_context
        (Some button_node) [] =
       (Inl (InvalidInternalCheckError (ResolvedIdMismatch (Some ''B1'') ''missing'')
              (Some ''https://example.org'')), [])
   \<and> find_node spec_roles (context_node example_context) (action_id (example_action ''B1'')) =
       Inr (Some button_node)
   \<and> node_id button_node = Some ''B1''"
proof -
  have ids: "map node_id (flatten spec_roles (context_node example_context) False) = [None, Some ''B1'']"
    by (simp add: example_context_def spec_tree_ids)
  have absent: "\<forall>x \<in> set (flatten spec_roles (context_node example_context) False).
      node_id x \<noteq> Some (action_id (example_action ''missing''))"
  proof
    fix x assume "x \<in> set (flatten spec_roles (context_node example_context) False)"
    then have "node_id x \<in> set (map node_id (flatten spec_roles (context_node example_context) False))"
      by simp
    then show "node_id x \<noteq> Some (action_id (example_action ''missing''))"
      unfolding ids by (auto simp: example_action_def)
  qed
  have other: "node_id button_node \<noteq> Some (action_id (example_action ''missing''))"
    by (simp add: button_node_uncached example_action_def)
  have found: "find_node spec_roles (context_node example_context) (action_id (example_action ''B1'')) =
       Inr (Some button_node)"
    by (simp add: example_context_def example_action_def spec_tree_find_button)
  note t1 = forward_lookup_failures [of spec_roles example_context "example_action ''missing''"
      example_browser "[] :: string list" "[]" button_node]
  note t2 = forward_lookup_failures [of spec_roles example_context "example_action ''B1''"
      example_browser "[] :: string list" "[]" button_node]
  show ?thesis
    using ids absent other found t1 t2
    by (simp add: example_action_def example_context_def example_snapshot_def)
qed

section \<open>Failures of the resolution\<close>

text \<open>
  Claim C4, as stated, at two inputs. For a node that has a cached bundle but no id, on a
  page where no pair yields the count one, the resolution fails with the check "node.id
  cannot be None", which is not a resolution failure. For a node with an id and a cached
  bundle, on a page where the accepted element is not visible but the editable probe
  raises, the resolution fails with the error of the driver, which is not a resolution
  failure either.
\<close>

theorem compute_attributes_other_failures:
  "node_id anonymous_cached_node = None
   \<and> cda_selectors (computed_attributes anonymous_cached_node) = Some example_selectors
   \<and> accepted_pair ambiguous_browser example_selectors = None
   \<and> fst (compute_attributes ambiguous_browser anonymous_cached_node example_snapshot []) =
       Inl (InvalidInternalCheckError NodeIdCannotBeNone (Some ''https://example.org''))
   \<and> \<not> is_node_resolution_failure
         (InvalidInternalCheckError NodeIdCannotBeNone (Some ''https://example.org''))
   \<and> node_id cached_button = Some ''B1''
   \<and> cda_selectors (computed_attributes cached_button) = Some example_selectors
   \<and> accepted_pair raising_browser example_selectors = Some (''#submit'', ''ad'')
   \<and> is_editable raising_browser (Locator ''ad'' ''#submit'') = Raises
   \<and> is_visible raising_browser (Locator ''ad'' ''#submit'') = Returns False
   \<and> fst (compute_attributes raising_browser cached_button example_snapshot []) = Inl DriverError
   \<and> \<not> is_node_resolution_failure DriverError"
proof -
  have first: "node_id anonymous_cached_node = None
   \<and> cda_selectors (computed_attributes anonymous_cached_node) = Some example_selectors
   \<and> accepted_pair ambiguous_browser example_selectors = None
   \<and> fst (compute_attributes ambiguous_browser anonymous_cached_node example_snapshot []) =
       Inl (InvalidInternalCheckError NodeIdCannotBeNone (Some ''https://example.org''))
   \<and> \<not> is_node_resolution_failure
         (InvalidInternalCheckError NodeIdCannotBeNone (Some ''https://example.org''))"
    by (simp add: accepted_pair_def ambiguous_accepted anonymous_cached_node_def new_DomNode_def
        default_computed_def compute_attributes_def example_snapshot_def is_node_resolution_failure_def)
  have acc: "accepted_pair raising_browser example_selectors = Some (''#submit'', ''ad'')"
    by (simp add: accepted_pair_def raising_accepted)
  have ed: "is_editable raising_browser (Locator ''ad'' ''#submit'') = Raises"
    and vis: "is_visible raising_browser (Locator ''ad'' ''#submit'') = Returns False"
    by (simp_all add: raising_browser_def example_browser_def)
  have ps: "fst (probe_state raising_browser (Locator ''ad'' ''#submit'') []) = Inl DriverError"
    by (simp add: probe_state_def ed)
  have res: "fst (compute_attributes raising_browser cached_button example_snapshot []) = Inl DriverError"
    by (simp add: compute_attributes_pair[OF cached_button_fields raising_accepted] ps)
  show ?thesis
    using first cached_button_fields acc ed vis res
    by (simp add: is_node_resolution_failure_def)
qed

text \<open>
  Claim C4, amended. For a node with an id whose bundle is already available,
  \<^verbatim>\<open>compute_attributes\<close> fails with a resolution failure exactly when either no pair of a
  candidate selector and a frame yields the count one (a count of zero, a count of two or
  more and a probe that raises are all passed over, and then every pair has been probed),
  or the live-state probes of the accepted element all return (editable, the input type if
  editable, visible, enabled) and the visible probe or the enabled probe answers no. When
  all probes return and both answer yes the resolution succeeds with the accepted selector;
  when a live-state probe raises, the error of the driver propagates.
\<close>

theorem compute_attributes_fails_iff:
  assumes "node_id n = Some ident" and "cda_selectors (computed_attributes n) = Some sels"
  shows "((\<exists>e. fst (compute_attributes B n snapshot calls) = Inl e \<and> is_node_resolution_failure e)
          \<longleftrightarrow>
          (accepted_pair B sels = None
           \<or> (\<exists>p editable vis en.
                 accepted_pair B sels = Some p
                 \<and> is_editable B (Locator (snd p) (fst p)) = Returns editable
                 \<and> (editable \<longrightarrow> get_attribute_type B (Locator (snd p) (fst p)) \<noteq> Raises)
                 \<and> is_visible B (Locator (snd p) (fst p)) = Returns vis
                 \<and> is_enabled B (Locator (snd p) (fst p)) = Returns en
                 \<and> (\<not> vis \<or> \<not> en))))
     \<and> (accepted_pair B sels = None \<longleftrightarrow>
          (\<forall>s \<in> set (selectors sels). \<forall>f \<in> set (frames B). locator_count B f s \<noteq> Returns 1))
     \<and> (accepted_pair B sels = None \<longrightarrow>
          compute_attributes B n snapshot calls =
            (Inl (FailedUniqueLocatorResolutionError sels), n,
             calls @ map count_call (probe_order B sels)))
     \<and> (\<forall>p editable vis en.
          accepted_pair B sels = Some p
          \<and> is_editable B (Locator (snd p) (fst p)) = Returns editable
          \<and> (editable \<longrightarrow> get_attribute_type B (Locator (snd p) (fst p)) \<noteq> Raises)
          \<and> is_visible B (Locator (snd p) (fst p)) = Returns vis
          \<and> is_enabled B (Locator (snd p) (fst p)) = Returns en
          \<and> (\<not> vis \<or> \<not> en)
          \<longrightarrow> fst (compute_attributes B n snapshot calls) = Inl (FailedNodeResolutionError n))
     \<and> (\<forall>p editable input_type.
          accepted_pair B sels = Some p
          \<and> is_editable B (Locator (snd p) (fst p)) = Returns editable
          \<and> (if editable then get_attribute_type B (Locator (snd p) (fst p)) = Returns input_type
              else input_type = None)
          \<and> is_visible B (Locator (snd p) (fst p)) = Returns True
          \<and> is_enabled B (Locator (snd p) (fst p)) = Returns True
          \<longrightarrow> (\<exists>r. fst (compute_attributes B n snapshot calls) = Inr r
                    \<and> rl_is_editable r = editable \<and> rl_input_type r = input_type
                    \<and> playwright_selector (rl_selector r) = Some (fst p)))
     \<and> (\<forall>p. accepted_pair B sels = Some p
          \<and> (is_editable B (Locator (snd p) (fst p)) = Raises
              \<or> (is_editable B (Locator (snd p) (fst p)) = Returns True
                  \<and> get_attribute_type B (Locator (snd p) (fst p)) = Raises)
              \<or> is_visible B (Locator (snd p) (fst p)) = Raises
              \<or> is_enabled B (Locator (snd p) (fst p)) = Raises)
          \<longrightarrow> fst (compute_attributes B n snapshot calls) = Inl DriverError)"
proof -
  have none_iff: "accepted_pair B sels = None \<longleftrightarrow>
          (\<forall>s \<in> set (selectors sels). \<forall>f \<in> set (frames B). locator_count B f s \<noteq> Returns 1)"
    by (rule accepted_pair_none)
  have none_res: "accepted_pair B sels = None \<longrightarrow>
          compute_attributes B n snapshot calls =
            (Inl (FailedUniqueLocatorResolutionError sels), n,
             calls @ map count_call (probe_order B sels))"
    unfolding accepted_pair_def using compute_attributes_no_pair[OF assms] by blast
  have bad: "\<forall>p editable vis en.
          accepted_pair B sels = Some p
          \<and> is_editable B (Locator (snd p) (fst p)) = Returns editable
          \<and> (editable \<longrightarrow> get_attribute_type B (Locator (snd p) (fst p)) \<noteq> Raises)
          \<and> is_visible B (Locator (snd p) (fst p)) = Returns vis
          \<and> is_enabled B (Locator (snd p) (fst p)) = Returns en
          \<and> (\<not> vis \<or> \<not> en)
          \<longrightarrow> fst (compute_attributes B n snapshot calls) = Inl (FailedNodeResolutionError n)"
  proof (intro allI impI)
    fix p editable vis en
    assume a: "accepted_pair B sels = Some p
          \<and> is_editable B (Locator (snd p) (fst p)) = Returns editable
          \<and> (editable \<longrightarrow> get_attribute_type B (Locator (snd p) (fst p)) \<noteq> Raises)
          \<and> is_visible B (Locator (snd p) (fst p)) = Returns vis
          \<and> is_enabled B (Locator (snd p) (fst p)) = Returns en
          \<and> (\<not> vis \<or> \<not> en)"
    then obtain ty where "if editable then get_attribute_type B (Locator (snd p) (fst p)) = Returns ty
        else ty = None"
      by (cases editable; cases "get_attribute_type B (Locator (snd p) (fst p))") auto
    then have "fst (probe_state B (Locator (snd p) (fst p)) []) = Inr (editable, ty, vis, en)"
      using a by (simp add: probe_state_returns)
    then show "fst (compute_attributes B n snapshot calls) = Inl (FailedNodeResolutionError n)"
      using a by (auto simp: accepted_pair_def compute_attributes_pair[OF assms])
  qed
  have good: "\<forall>p editable input_type.
          accepted_pair B sels = Some p
          \<and> is_editable B (Locator (snd p) (fst p)) = Returns editable
          \<and> (if editable then get_attribute_type B (Locator (snd p) (fst p)) = Returns input_type
              else input_type = None)
          \<and> is_visible B (Locator (snd p) (fst p)) = Returns True
          \<and> is_enabled B (Locator (snd p) (fst p)) = Returns True
          \<longrightarrow> (\<exists>r. fst (compute_attributes B n snapshot calls) = Inr r
                    \<and> rl_is_editable r = editable \<and> rl_input_type r = input_type
                    \<and> playwright_selector (rl_selector r) = Some (fst p))"
  proof (intro allI impI)
    fix p editable input_type
    assume a: "accepted_pair B sels = Some p
          \<and> is_editable B (Locator (snd p) (fst p)) = Returns editable
          \<and> (if editable then get_attribute_type B (Locator (snd p) (fst p)) = Returns input_type
              else input_type = None)
          \<and> is_visible B (Locator (snd p) (fst p)) = Returns True
          \<and> is_enabled B (Locator (snd p) (fst p)) = Returns True"
    then have "fst (probe_state B (Locator (snd p) (fst p)) []) = Inr (editable, input_type, True, True)"
      by (simp add: probe_state_returns)
    then show "\<exists>r. fst (compute_attributes B n snapshot calls) = Inr r
                    \<and> rl_is_editable r = editable \<and> rl_input_type r = input_type
                    \<and> playwright_selector (rl_selector r) = Some (fst p)"
      using a by (simp add: accepted_pair_def compute_attributes_pair[OF assms])
  qed
  have raise: "\<forall>p. accepted_pair B sels = Some p
          \<and> (is_editable B (Locator (snd p) (fst p)) = Raises
              \<or> (is_editable B (Locator (snd p) (fst p)) = Returns True
                  \<and> get_attribute_type B (Locator (snd p) (fst p)) = Raises)
              \<or> is_visible B (Locator (snd p) (fst p)) = Raises
              \<or> is_enabled B (Locator (snd p) (fst p)) = Raises)
          \<longrightarrow> fst (compute_attributes B n snapshot calls) = Inl DriverError"
  proof (intro allI impI)
    fix p
    assume a: "accepted_pair B sels = Some p
          \<and> (is_editable B (Locator (snd p) (fst p)) = Raises
              \<or> (is_editable B (Locator (snd p) (fst p)) = Returns True
                  \<and> get_attribute_type B (Locator (snd p) (fst p)) = Raises)
              \<or> is_visible B (Locator (snd p) (fst p)) = Raises
              \<or> is_enabled B (Locator (snd p) (fst p)) = Raises)"
    then obtain e where e: "fst (probe_state B (Locator (snd p) (fst p)) []) = Inl e"
      using probe_state_raises[of B "Locator (snd p) (fst p)" "[]"] by blast
    then have "e = DriverError" by (rule probe_state_not_failure)
    then show "fst (compute_attributes B n snapshot calls) = Inl DriverError"
      using a e by (simp add: accepted_pair_def compute_attributes_pair[OF assms])
  qed
  have iff: "(\<exists>e. fst (compute_attributes B n snapshot calls) = Inl e \<and> is_node_resolution_failure e)
          \<longleftrightarrow>
          (accepted_pair B sels = None
           \<or> (\<exists>p editable vis en.
                 accepted_pair B sels = Some p
                 \<and> is_editable B (Locator (snd p) (fst p)) = Returns editable
                 \<and> (editable \<longrightarrow> get_attribute_type B (Locator (snd p) (fst p)) \<noteq> Raises)
                 \<and> is_visible B (Locator (snd p) (fst p)) = Returns vis
                 \<and> is_enabled B (Locator (snd p) (fst p)) = Returns en
                 \<and> (\<not> vis \<or> \<not> en)))"
  proof (cases "List.find (unique_match B) (probe_order B sels)")
    case None
    then show ?thesis
      by (simp add: accepted_pair_def compute_attributes_no_pair[OF assms None]
            is_node_resolution_failure_def)
  next
    case (Some p)
    let ?loc = "Locator (snd p) (fst p)"
    have acc: "accepted_pair B sels = Some p"
      by (simp add: accepted_pair_def Some)
    show ?thesis
    proof
      assume "\<exists>e. fst (compute_attributes B n snapshot calls) = Inl e \<and> is_node_resolution_failure e"
      then obtain e where e: "fst (compute_attributes B n snapshot calls) = Inl e"
        "is_node_resolution_failure e" by blast
      obtain q where q: "fst (probe_state B ?loc []) = q" by simp
      show "accepted_pair B sels = None
           \<or> (\<exists>p editable vis en.
                 accepted_pair B sels = Some p
                 \<and> is_editable B (Locator (snd p) (fst p)) = Returns editable
                 \<and> (editable \<longrightarrow> get_attribute_type B (Locator (snd p) (fst p)) \<noteq> Raises)
                 \<and> is_visible B (Locator (snd p) (fst p)) = Returns vis
                 \<and> is_enabled B (Locator (snd p) (fst p)) = Returns en
                 \<and> (\<not> vis \<or> \<not> en))"
      proof (cases q)
        case (Inl d)
        then have "d = DriverError"
          using q probe_state_not_failure[of B ?loc "[]" d] by simp
        then have "fst (compute_attributes B n snapshot calls) = Inl DriverError"
          using q Inl by (simp add: compute_attributes_pair[OF assms Some])
        then show ?thesis
          using e by (simp add: is_node_resolution_failure_def)
      next
        case (Inr r)
        obtain editable input_type vis en where r: "r = (editable, input_type, vis, en)"
          by (cases r)
        have ps: "fst (probe_state B ?loc []) = Inr (editable, input_type, vis, en)"
          using q Inr r by simp
        have bad_state: "\<not> vis \<or> \<not> en"
          using e ps by (auto simp: compute_attributes_pair[OF assms Some] split: if_splits)
        have o: "is_editable B ?loc = Returns editable"
          "if editable then get_attribute_type B ?loc = Returns input_type else input_type = None"
          "is_visible B ?loc = Returns vis" "is_enabled B ?loc = Returns en"
          using ps by (simp_all add: probe_state_returns)
        have "editable \<longrightarrow> get_attribute_type B ?loc \<noteq> Raises"
          using o(2) by auto
        then show ?thesis
          using acc o(1,3,4) bad_state by blast
      qed
    next
      assume "accepted_pair B sels = None
           \<or> (\<exists>p editable vis en.
                 accepted_pair B sels = Some p
                 \<and> is_editable B (Locator (snd p) (fst p)) = Returns editable
                 \<and> (editable \<longrightarrow> get_attribute_type B (Locator (snd p) (fst p)) \<noteq> Raises)
                 \<and> is_visible B (Locator (snd p) (fst p)) = Returns vis
                 \<and> is_enabled B (Locator (snd p) (fst p)) = Returns en
                 \<and> (\<not> vis \<or> \<not> en))"
      then have "fst (compute_attributes B n snapshot calls) = Inl (FailedNodeResolutionError n)"
        using acc bad by auto
      then show "\<exists>e. fst (compute_attributes B n snapshot calls) = Inl e \<and> is_node_resolution_failure e"
        by (simp add: is_node_resolution_failure_def)
    qed
  qed
  show ?thesis
    using iff none_iff none_res bad good raise by (intro conjI)
qed

theorem compute_attributes_fails_iff_witness:
  "node_id cached_button = Some ''B1''
   \<and> cda_selectors (computed_attributes cached_button) = Some example_selectors
   \<and> accepted_pair ambiguous_browser example_selectors = None
   \<and> compute_attributes ambiguous_browser cached_button example_snapshot [] =
       (Inl (FailedUniqueLocatorResolutionError example_selectors), cached_button,
        map count_call (probe_order ambiguous_browser example_selectors))
   \<and> accepted_pair invisible_browser example_selectors = Some (''#submit'', ''ad'')
   \<and> is_editable invisible_browser (Locator ''ad'' ''#submit'') = Returns False
   \<and> is_visible invisible_browser (Locator ''ad'' ''#submit'') = Returns False
   \<and> is_enabled invisible_browser (Locator ''ad'' ''#submit'') = Returns True
   \<and> fst (compute_attributes invisible_browser cached_button example_snapshot []) =
       Inl (FailedNodeResolutionError cached_button)
   \<and> accepted_pair disabled_browser example_selectors = Some (''#submit'', ''ad'')
   \<and> is_editable disabled_browser (Locator ''ad'' ''#submit'') = Returns False
   \<and> is_visible disabled_browser (Locator ''ad'' ''#submit'') = Returns True
   \<and> is_enabled disabled_browser (Locator ''ad'' ''#submit'') = Returns False
   \<and> fst (compute_attributes disabled_browser cached_button example_snapshot []) =
       Inl (FailedNodeResolutionError cached_button)"
proof -
  note ids = cached_button_fields
  let ?loc = "Locator ''ad'' ''#submit''"
  have a: "accepted_pair ambiguous_browser example_selectors = None"
    by (simp add: accepted_pair_def ambiguous_accepted)
  have i: "accepted_pair invisible_browser example_selectors = Some (''#submit'', ''ad'')"
    by (simp add: accepted_pair_def invisible_accepted)
  have d: "accepted_pair disabled_browser example_selectors = Some (''#submit'', ''ad'')"
    by (simp add: accepted_pair_def disabled_accepted)
  have pi: "is_editable invisible_browser ?loc = Returns False"
    "is_visible invisible_browser ?loc = Returns False"
    "is_enabled invisible_browser ?loc = Returns True"
    by (simp_all add: invisible_browser_def example_browser_def)
  have pd: "is_editable disabled_browser ?loc = Returns False"
    "is_visible disabled_browser ?loc = Returns True"
    "is_enabled disabled_browser ?loc = Returns False"
    by (simp_all add: disabled_browser_def example_browser_def)
  note t1 = compute_attributes_fails_iff [OF ids, of ambiguous_browser example_snapshot "[]"]
  note t2 = compute_attributes_fails_iff [OF ids, of invisible_browser example_snapshot "[]"]
  note t3 = compute_attributes_fails_iff [OF ids, of disabled_browser example_snapshot "[]"]
  have r1: "compute_attributes ambiguous_browser cached_button example_snapshot [] =
       (Inl (FailedUniqueLocatorResolutionError example_selectors), cached_button,
        map count_call (probe_order ambiguous_browser example_selectors))"
    using t1[THEN conjunct2, THEN conjunct2, THEN conjunct1] a by simp
  have r2: "fst (compute_attributes invisible_browser cached_button example_snapshot []) =
       Inl (FailedNodeResolutionError cached_button)"
    using t2[THEN conjunct2, THEN conjunct2, THEN conjunct2, THEN conjunct1, rule_format,
             of "(''#submit'', ''ad'')" False False True] i pi
    by simp
  have r3: "fst (compute_attributes disabled_browser cached_button example_snapshot []) =
       Inl (FailedNodeResolutionError cached_button)"
    using t3[THEN conjunct2, THEN conjunct2, THEN conjunct2, THEN conjunct1, rule_format,
             of "(''#submit'', ''ad'')" False True False] d pd
    by simp
  show ?thesis
    using ids a i d pi pd r1 r2 r3 by simp
qed

section \<open>The selector cache\<close>

text \<open>
  Claim C9. When the selectors of a node are already set, \<^verbatim>\<open>fill_node_selectors\<close> returns at
  once with the node and the calls unchanged, and \<^verbatim>\<open>compute_attributes\<close> leaves the node
  unchanged, performs no call of the fallback resolution and builds its result from that
  bundle. In every case the two functions change no field of the node other than the
  selectors, and they change the selectors only from unset to set.
\<close>

theorem selectors_filled_at_most_once:
  "(cda_selectors (computed_attributes n) = Some s \<longrightarrow>
      fill_node_selectors B n snapshot calls = (Inr (), n, calls)
      \<and> fst (snd (compute_attributes B n snapshot calls)) = n
      \<and> (\<exists>ext. snd (snd (compute_attributes B n snapshot calls)) = calls @ ext
                 \<and> (\<forall>c \<in> set ext. \<not> is_fallback_call c))
      \<and> (\<forall>r. fst (compute_attributes B n snapshot calls) = Inr r \<longrightarrow>
             rl_selector r = s\<lparr>playwright_selector := playwright_selector (rl_selector r)\<rparr>))
   \<and> same_but_selectors n (fst (snd (fill_node_selectors B n snapshot calls)))
   \<and> same_but_selectors n (fst (snd (compute_attributes B n snapshot calls)))
   \<and> (fst (snd (fill_node_selectors B n snapshot calls)) \<noteq> n \<longrightarrow>
        cda_selectors (computed_attributes n) = None
        \<and> cda_selectors (computed_attributes (fst (snd (fill_node_selectors B n snapshot calls)))) \<noteq> None)
   \<and> (fst (snd (compute_attributes B n snapshot calls)) \<noteq> n \<longrightarrow>
        cda_selectors (computed_attributes n) = None
        \<and> cda_selectors (computed_attributes (fst (snd (compute_attributes B n snapshot calls)))) \<noteq> None)"
proof -
  have fill_same: "same_but_selectors n (fst (snd (fill_node_selectors B n snapshot calls)))"
    using fill_node_selectors_node[of B n snapshot calls]
    by (auto simp: same_but_selectors_refl same_but_selectors_set)
  have fill_once: "fst (snd (fill_node_selectors B n snapshot calls)) \<noteq> n \<longrightarrow>
        cda_selectors (computed_attributes n) = None
        \<and> cda_selectors (computed_attributes (fst (snd (fill_node_selectors B n snapshot calls)))) \<noteq> None"
    using fill_node_selectors_node[of B n snapshot calls]
    by (auto simp: set_selectors_set)
  have comp_same: "same_but_selectors n (fst (snd (compute_attributes B n snapshot calls)))"
    using fill_same by (simp add: compute_attributes_node same_but_selectors_refl)
  have comp_once: "fst (snd (compute_attributes B n snapshot calls)) \<noteq> n \<longrightarrow>
        cda_selectors (computed_attributes n) = None
        \<and> cda_selectors (computed_attributes (fst (snd (compute_attributes B n snapshot calls)))) \<noteq> None"
    using fill_once by (simp add: compute_attributes_node)
  have cached: "cda_selectors (computed_attributes n) = Some s \<longrightarrow>
      fill_node_selectors B n snapshot calls = (Inr (), n, calls)
      \<and> fst (snd (compute_attributes B n snapshot calls)) = n
      \<and> (\<exists>ext. snd (snd (compute_attributes B n snapshot calls)) = calls @ ext
                 \<and> (\<forall>c \<in> set ext. \<not> is_fallback_call c))
      \<and> (\<forall>r. fst (compute_attributes B n snapshot calls) = Inr r \<longrightarrow>
             rl_selector r = s\<lparr>playwright_selector := playwright_selector (rl_selector r)\<rparr>)"
    using fill_node_selectors_cached[of n s B snapshot calls]
      compute_attributes_cached_calls[of n s B snapshot calls]
      compute_attributes_cached_bundle[of n s B snapshot calls]
    by (simp add: compute_attributes_node)
  show ?thesis
    using cached fill_same comp_same fill_once comp_once by blast
qed

theorem selectors_filled_at_most_once_witness:
  "cda_selectors (computed_attributes cached_button) = Some example_selectors
   \<and> fill_node_selectors example_browser cached_button example_snapshot [] = (Inr (), cached_button, [])
   \<and> compute_attributes example_browser cached_button example_snapshot [] =
       (Inr \<lparr>rl_role = NodeRole ''button'', rl_is_editable = False, rl_input_type = None,
             rl_selector = example_selectors\<lparr>playwright_selector := Some ''#submit''\<rparr>\<rparr>,
        cached_button,
        [Count ''main'' ''internal:role=button'', Count ''ad'' ''internal:role=button'',
         Count ''main'' ''#submit'', Count ''ad'' ''#submit'',
         IsEditable (Locator ''ad'' ''#submit''), IsVisible (Locator ''ad'' ''#submit''),
         IsEnabled (Locator ''ad'' ''#submit'')])
   \<and> cda_selectors (computed_attributes button_node) = None
   \<and> fill_node_selectors example_browser button_node example_snapshot [] =
       (Inr (), set_selectors button_node (example_selectors\<lparr>notte_selector := []\<rparr>),
        [GetLocatorForNodeId ''B1'', GetHtmlSelector (Locator ''main'' ''aria-ref=B1'')])
   \<and> same_but_selectors button_node
        (set_selectors button_node (example_selectors\<lparr>notte_selector := []\<rparr>))"
  using selectors_filled_at_most_once [of cached_button example_selectors example_browser example_snapshot "[]"]
    selectors_filled_at_most_once [of button_node example_selectors example_browser example_snapshot "[]"]
    cached_button_fields button_node_uncached example_resolution example_fill
  by simp

end
